theory Spec2Isabelle
  imports Main
begin

text \<open>
  A shallow embedding of the two React hooks of the library, \<^verbatim>\<open>useKeyboard\<close> (lines 64
  to 89 of the source file) and \<^verbatim>\<open>usePosition\<close> (lines 110 to 138), and of the part of
  React and of the DOM that they call.

  A hook is a function that React calls on every render of a component. What it keeps
  between renders lives in cells that React owns: the model passes the cells in and
  returns them updated, \<open>None\<close> standing for a component that is not mounted. One
  render together with the commit of its effects is one step. The browser is a record;
  the listener callbacks of the user and the DOM calls are logged in it, so that
  "called once" and "removed what was added" are statements about lists.
\<close>

section \<open>Shared vocabulary: object identities and JavaScript errors\<close>

text \<open>
  DOM elements, React ref objects and function objects are compared by identity in the
  source (\<^verbatim>\<open>Object.is\<close> on hook dependencies, reference equality in
  \<^verbatim>\<open>removeEventListener\<close>). Each identity is a natural number.
\<close>

type_synonym node = nat
type_synonym ref_id = nat
type_synonym fn_id = nat

text \<open>Calling a method on \<^verbatim>\<open>null\<close> or \<^verbatim>\<open>undefined\<close> throws.\<close>

datatype js_error = TypeError

section \<open>usePosition\<close>

datatype TSide = side_top | side_bottom

datatype TAlign = align_left | align_right

type_synonym TPosition = "TAlign \<times> TSide"

text \<open>
  The four fields of the bounding box that the hook reads, and the two fields of
  \<^verbatim>\<open>window\<close>. JavaScript numbers are only subtracted and compared here, so
  the number type is a parameter: any type with \<open>-\<close> and \<open>\<le>\<close>.
\<close>

record 'a DOMRect =
  right :: 'a
  bottom :: 'a
  width :: 'a
  height :: 'a

record 'a Window =
  innerWidth :: 'a
  innerHeight :: 'a

text \<open>
  Lines 116 to 133 of the effect: the two \<^verbatim>\<open>let\<close> variables start at
  \<^verbatim>\<open>"right"\<close> and \<^verbatim>\<open>"bottom"\<close> and each is overwritten by one
  \<^verbatim>\<open>if\<close>.
\<close>

definition measure_popup :: "'a::{minus,ord} DOMRect \<Rightarrow> 'a Window \<Rightarrow> TPosition" where
  "measure_popup popup window =
     (let align = align_right;
          side = side_bottom;
          spaceOnRight = innerWidth window - right popup;
          spaceOnBottom = innerHeight window - bottom popup;
          align = (if spaceOnRight \<le> width popup then align_left else align);
          side = (if spaceOnBottom \<le> height popup then side_top else side)
      in (align, side))"

text \<open>
  What the hooks read from the browser. Both read the node each ref object currently
  points to (\<^verbatim>\<open>ref.current\<close>, \<open>None\<close> for \<^verbatim>\<open>null\<close>); usePosition also reads
  the bounding box of each node and the window.
\<close>

record refs =
  current :: "ref_id \<Rightarrow> node option"

record 'a layout = refs +
  rect :: "node \<Rightarrow> 'a DOMRect"
  window :: "'a Window"

text \<open>
  The cells React keeps for one mounted instance of the hook: the \<^verbatim>\<open>useState\<close>
  value and the dependency array \<^verbatim>\<open>[ref]\<close> of the last committed effect. Two
  counters record what happened: how often the effect callback ran, and how often it
  called \<^verbatim>\<open>getBoundingClientRect\<close>.
\<close>

record usePosition_cells =
  position :: TPosition
  effect_deps :: "ref_id option"
  effect_runs :: nat
  measurements :: nat

definition getBoundingClientRect :: "'a layout \<Rightarrow> node option \<Rightarrow> js_error + 'a DOMRect" where
  "getBoundingClientRect L cur =
     (case cur of None \<Rightarrow> Inl TypeError | Some n \<Rightarrow> Inr (rect L n))"

text \<open>The effect callback, lines 113 to 135, with \<^verbatim>\<open>setPosition\<close> writing the state cell.\<close>

definition usePosition_effect ::
  "ref_id \<Rightarrow> 'a::{minus,ord} layout \<Rightarrow> usePosition_cells \<Rightarrow> js_error + usePosition_cells" where
  "usePosition_effect ref L c =
     (let c = c\<lparr>effect_runs := Suc (effect_runs c)\<rparr> in
      if current L ref \<noteq> None then
        (case getBoundingClientRect L (current L ref) of
           Inl e \<Rightarrow> Inl e
         | Inr popup \<Rightarrow>
             Inr (c\<lparr>position := measure_popup popup (window L),
                    measurements := Suc (measurements c)\<rparr>))
      else Inr c)"

text \<open>
  One render of a component that calls \<^verbatim>\<open>usePosition(ref)\<close>, followed by the commit
  of its effects. \<^verbatim>\<open>useState\<close> gives the initial value on the first render and the
  stored value afterwards; \<^verbatim>\<open>useEffect\<close> runs the callback on the first render and
  whenever the dependency array differs from the last one. The result is the value the
  render returned and the cells after the commit.
\<close>

definition usePosition ::
  "ref_id \<Rightarrow> 'a::{minus,ord} layout \<Rightarrow> usePosition_cells option \<Rightarrow>
     js_error + (TPosition \<times> usePosition_cells)" where
  "usePosition ref L inst =
     (let c = (case inst of
                 None \<Rightarrow> \<lparr>position = (align_right, side_bottom), effect_deps = None,
                           effect_runs = 0, measurements = 0\<rparr>
               | Some c \<Rightarrow> c);
          returned = position c
      in if effect_deps c = Some ref then Inr (returned, c)
         else (case usePosition_effect ref L (c\<lparr>effect_deps := Some ref\<rparr>) of
                 Inl e \<Rightarrow> Inl e
               | Inr c' \<Rightarrow> Inr (returned, c')))"

text \<open>
  What can happen to a component using the hook: it renders (the first render mounts
  it), the ref is pointed at another node or at \<^verbatim>\<open>null\<close>, the window is resized, the
  page is scrolled (every viewport-relative bounding box changes), it unmounts.
\<close>

datatype 'a position_action =
  Render ref_id
| SetCurrent ref_id "node option"
| Resize "'a Window"
| Scroll "node \<Rightarrow> 'a DOMRect"
| Unmount

fun position_step ::
  "'a::{minus,ord} position_action \<Rightarrow> 'a layout \<times> usePosition_cells option \<Rightarrow>
     js_error + ('a layout \<times> usePosition_cells option)" where
  "position_step (Render ref) (L, inst) =
     (case usePosition ref L inst of Inl e \<Rightarrow> Inl e | Inr (_, c) \<Rightarrow> Inr (L, Some c))"
| "position_step (SetCurrent r n) (L, inst) = Inr (L\<lparr>current := (current L)(r := n)\<rparr>, inst)"
| "position_step (Resize w) (L, inst) = Inr (L\<lparr>window := w\<rparr>, inst)"
| "position_step (Scroll rs) (L, inst) = Inr (L\<lparr>rect := rs\<rparr>, inst)"
| "position_step Unmount (L, inst) = Inr (L, None)"

fun position_run ::
  "'a::{minus,ord} position_action list \<Rightarrow> 'a layout \<times> usePosition_cells option \<Rightarrow>
     js_error + ('a layout \<times> usePosition_cells option)" where
  "position_run [] s = Inr s"
| "position_run (a # as) s =
     (case position_step a s of Inl e \<Rightarrow> Inl e | Inr s' \<Rightarrow> position_run as s')"

section \<open>useKeyboard\<close>

datatype TKeyboardEvent = keydown | keypress | keyup

record IKeyboardOptions =
  event :: "TKeyboardEvent option"
  preventDefault :: "bool option"
  ref :: "ref_id option"

text \<open>
  The fields of \<^verbatim>\<open>globalThis.KeyboardEvent\<close> that the hook and the browser's dispatch
  touch, and a counter of the calls of \<^verbatim>\<open>e.preventDefault()\<close> made on the event.
  That method sets the canceled flag of a cancelable event and does nothing to any
  other, as the DOM standard has it; the keyboard events that a browser dispatches are
  cancelable, a script can construct one that is not.
\<close>

record KeyboardEvent =
  type :: TKeyboardEvent
  key :: string
  cancelable :: bool
  defaultPrevented :: bool
  preventDefault_calls :: nat

definition Event_preventDefault :: "KeyboardEvent \<Rightarrow> KeyboardEvent" where
  "Event_preventDefault e =
     e\<lparr>defaultPrevented := (cancelable e \<or> defaultPrevented e),
       preventDefault_calls := Suc (preventDefault_calls e)\<rparr>"

text \<open>
  The values the expression \<^verbatim>\<open>ref?.current || document\<close> and its parts can take.
\<close>

datatype js_value = js_undefined | js_null | HTMLElement node | document

definition truthy :: "js_value \<Rightarrow> bool" where
  "truthy v = (v \<noteq> js_undefined \<and> v \<noteq> js_null)"

definition js_or :: "js_value \<Rightarrow> js_value \<Rightarrow> js_value" where
  "js_or a b = (if truthy a then a else b)"

text \<open>\<^verbatim>\<open>ref?.current\<close>: \<^verbatim>\<open>undefined\<close> when no ref was passed.\<close>

definition optional_current :: "(ref_id \<Rightarrow> node option) \<Rightarrow> ref_id option \<Rightarrow> js_value" where
  "optional_current cur r =
     (case r of
        None \<Rightarrow> js_undefined
      | Some r' \<Rightarrow> (case cur r' of None \<Rightarrow> js_null | Some n \<Rightarrow> HTMLElement n))"

text \<open>
  The function object that the arrow expression of lines 70 to 75 creates: its identity
  and the three variables of the enclosing render that it captures.
\<close>

record closure =
  fn :: fn_id
  c_key :: string
  c_preventDefault :: bool
  c_listener :: fn_id

datatype dom_call =
  AddListener js_value TKeyboardEvent fn_id
| RemoveListener js_value TKeyboardEvent fn_id

text \<open>
  The browser as the hook sees it: the refs, the listeners registered on each event
  target in registration order, the next unused function identity, and two logs: the
  calls made to \<^verbatim>\<open>addEventListener\<close> and \<^verbatim>\<open>removeEventListener\<close>, and the
  invocations of user callbacks with the event each one received.
\<close>

record dom = refs +
  listeners :: "(js_value \<times> TKeyboardEvent \<times> closure) list"
  next_fn :: fn_id
  calls :: "dom_call list"
  invoked :: "(fn_id \<times> KeyboardEvent) list"

definition same_listener ::
  "js_value \<Rightarrow> TKeyboardEvent \<Rightarrow> fn_id \<Rightarrow> js_value \<times> TKeyboardEvent \<times> closure \<Rightarrow> bool" where
  "same_listener target ty f l = (fst l = target \<and> fst (snd l) = ty \<and> fn (snd (snd l)) = f)"

text \<open>
  \<^verbatim>\<open>target.addEventListener(type, callback)\<close>: a member call on \<^verbatim>\<open>null\<close> or
  \<^verbatim>\<open>undefined\<close> throws; a listener already registered on the target for the same type
  with the same callback is not added again.
\<close>

definition addEventListener ::
  "js_value \<Rightarrow> TKeyboardEvent \<Rightarrow> closure \<Rightarrow> dom \<Rightarrow> js_error + dom" where
  "addEventListener target ty h w =
     (if \<not> truthy target then Inl TypeError
      else Inr (w\<lparr>listeners :=
                    (if list_ex (same_listener target ty (fn h)) (listeners w) then listeners w
                     else listeners w @ [(target, ty, h)]),
                  calls := calls w @ [AddListener target ty (fn h)]\<rparr>))"

definition removeEventListener ::
  "js_value \<Rightarrow> TKeyboardEvent \<Rightarrow> closure \<Rightarrow> dom \<Rightarrow> js_error + dom" where
  "removeEventListener target ty h w =
     (if \<not> truthy target then Inl TypeError
      else Inr (w\<lparr>listeners := filter (\<lambda>l. \<not> same_listener target ty (fn h) l) (listeners w),
                  calls := calls w @ [RemoveListener target ty (fn h)]\<rparr>))"

text \<open>
  The body of the arrow function, lines 71 to 74, run with the variables the closure
  captured. The user's \<^verbatim>\<open>listener\<close> is opaque: its invocation is logged with the
  event it receives, which is \<^verbatim>\<open>e\<close> itself after \<^verbatim>\<open>e.preventDefault()\<close> ran on it.
\<close>

definition eventHandler :: "closure \<Rightarrow> KeyboardEvent \<Rightarrow> dom \<Rightarrow> KeyboardEvent \<times> dom" where
  "eventHandler h e w =
     (if key e = c_key h then
        (let e = (if c_preventDefault h then Event_preventDefault e else e)
         in (e, w\<lparr>invoked := invoked w @ [(c_listener h, e)]\<rparr>))
      else (e, w))"

text \<open>
  The browser dispatching an event along a propagation path: on each target of the path,
  every listener registered for the event's type is called, in registration order.
\<close>

fun invoke_listeners :: "closure list \<Rightarrow> KeyboardEvent \<Rightarrow> dom \<Rightarrow> KeyboardEvent \<times> dom" where
  "invoke_listeners [] e w = (e, w)"
| "invoke_listeners (h # hs) e w =
     (case eventHandler h e w of (e', w') \<Rightarrow> invoke_listeners hs e' w')"

definition listeners_on :: "js_value \<Rightarrow> TKeyboardEvent \<Rightarrow> dom \<Rightarrow> closure list" where
  "listeners_on target ty w =
     map (\<lambda>l. snd (snd l)) (filter (\<lambda>l. fst l = target \<and> fst (snd l) = ty) (listeners w))"

fun dispatchEvent :: "js_value list \<Rightarrow> KeyboardEvent \<Rightarrow> dom \<Rightarrow> KeyboardEvent \<times> dom" where
  "dispatchEvent [] e w = (e, w)"
| "dispatchEvent (t # path) e w =
     (case invoke_listeners (listeners_on t (type e) w) e w of
        (e', w') \<Rightarrow> dispatchEvent path e' w')"

text \<open>
  The cells React keeps for one mounted instance of the hook: the function memoized by
  \<^verbatim>\<open>useCallback\<close> with its dependency array \<^verbatim>\<open>[key]\<close>, and for \<^verbatim>\<open>useEffect\<close> the
  dependency array \<^verbatim>\<open>[event, eventHandler, ref]\<close> of the last committed effect with
  the cleanup function that effect returned. The cleanup is a closure too: it captures
  \<^verbatim>\<open>target\<close>, \<^verbatim>\<open>event\<close> and \<^verbatim>\<open>eventHandler\<close>.
\<close>

record useKeyboard_cells =
  callback_cell :: "closure \<times> string"
  effect_deps_cell :: "TKeyboardEvent \<times> fn_id \<times> ref_id option"
  cleanup_cell :: "js_value \<times> TKeyboardEvent \<times> closure"

text \<open>Line 81: \<^verbatim>\<open>ref?.current || document\<close>.\<close>

definition target_of :: "(ref_id \<Rightarrow> node option) \<Rightarrow> ref_id option \<Rightarrow> js_value" where
  "target_of cur r = js_or (optional_current cur r) document"

text \<open>The effect callback, lines 81 to 87; it returns the cleanup closure.\<close>

definition useKeyboard_effect ::
  "TKeyboardEvent \<Rightarrow> closure \<Rightarrow> ref_id option \<Rightarrow> dom \<Rightarrow>
     js_error + (dom \<times> (js_value \<times> TKeyboardEvent \<times> closure))" where
  "useKeyboard_effect ev handler r w =
     (let target = target_of (current w) r
      in case addEventListener target ev handler w of
           Inl err \<Rightarrow> Inl err
         | Inr w' \<Rightarrow> Inr (w', (target, ev, handler)))"

text \<open>The cleanup function, line 86, run with the variables it captured.\<close>

definition useKeyboard_cleanup ::
  "js_value \<times> TKeyboardEvent \<times> closure \<Rightarrow> dom \<Rightarrow> js_error + dom" where
  "useKeyboard_cleanup cl w =
     (case cl of (target, ev, handler) \<Rightarrow> removeEventListener target ev handler w)"

text \<open>
  The destructuring of line 67,
  \<^verbatim>\<open>{ event = "keydown", preventDefault = true, ref }: IKeyboardOptions = {}\<close>:
  a missing options object is the empty one, a missing \<^verbatim>\<open>event\<close> is
  \<^verbatim>\<open>"keydown"\<close>, a missing \<^verbatim>\<open>preventDefault\<close> is \<^verbatim>\<open>true\<close>.
\<close>

definition options_or_empty :: "IKeyboardOptions option \<Rightarrow> IKeyboardOptions" where
  "options_or_empty options =
     (case options of
        None \<Rightarrow> \<lparr>event = None, preventDefault = None, ref = None\<rparr>
      | Some opts \<Rightarrow> opts)"

definition event_of :: "IKeyboardOptions option \<Rightarrow> TKeyboardEvent" where
  "event_of options =
     (case event (options_or_empty options) of None \<Rightarrow> keydown | Some ev \<Rightarrow> ev)"

definition preventDefault_of :: "IKeyboardOptions option \<Rightarrow> bool" where
  "preventDefault_of options =
     (case preventDefault (options_or_empty options) of None \<Rightarrow> True | Some pd \<Rightarrow> pd)"

definition ref_of :: "IKeyboardOptions option \<Rightarrow> ref_id option" where
  "ref_of options = ref (options_or_empty options)"

text \<open>
  One render of a component that calls \<^verbatim>\<open>useKeyboard(key, listener, options)\<close>,
  followed by the commit of its effects; \<open>k\<close> is the parameter \<^verbatim>\<open>key\<close>. Every
  render evaluates the arrow expression, which makes a new function object capturing
  this render's variables; \<^verbatim>\<open>useCallback\<close> returns the memoized function instead
  when \<^verbatim>\<open>[key]\<close> is unchanged. \<^verbatim>\<open>useEffect\<close> runs the effect on the first render;
  on a later render it compares the dependency arrays element by element (strings by
  value, functions and ref objects by identity) and, when they differ, runs the cleanup
  of the previous effect and then the new effect.
\<close>

definition useKeyboard ::
  "string \<Rightarrow> fn_id \<Rightarrow> IKeyboardOptions option \<Rightarrow> dom \<Rightarrow> useKeyboard_cells option \<Rightarrow>
     js_error + (dom \<times> useKeyboard_cells)" where
  "useKeyboard k listener options w inst =
     (let ev = event_of options;
          pd = preventDefault_of options;
          r = ref_of options;
          arrow = \<lparr>fn = next_fn w, c_key = k, c_preventDefault = pd, c_listener = listener\<rparr>;
          w = w\<lparr>next_fn := Suc (next_fn w)\<rparr>;
          handler = (case inst of
                       None \<Rightarrow> arrow
                     | Some c \<Rightarrow> if snd (callback_cell c) = k then fst (callback_cell c)
                                else arrow);
          deps = (ev, fn handler, r)
      in case inst of
           None \<Rightarrow>
             (case useKeyboard_effect ev handler r w of
                Inl err \<Rightarrow> Inl err
              | Inr (w', cl) \<Rightarrow>
                  Inr (w', \<lparr>callback_cell = (handler, k), effect_deps_cell = deps,
                            cleanup_cell = cl\<rparr>))
         | Some c \<Rightarrow>
             if effect_deps_cell c = deps then Inr (w, c\<lparr>callback_cell := (handler, k)\<rparr>)
             else
               (case useKeyboard_cleanup (cleanup_cell c) w of
                  Inl err \<Rightarrow> Inl err
                | Inr w1 \<Rightarrow>
                    (case useKeyboard_effect ev handler r w1 of
                       Inl err \<Rightarrow> Inl err
                     | Inr (w', cl) \<Rightarrow>
                         Inr (w', \<lparr>callback_cell = (handler, k), effect_deps_cell = deps,
                                   cleanup_cell = cl\<rparr>))))"

text \<open>Unmounting runs the cleanup of the last committed effect.\<close>

definition useKeyboard_unmount :: "dom \<Rightarrow> useKeyboard_cells option \<Rightarrow> js_error + dom" where
  "useKeyboard_unmount w inst =
     (case inst of None \<Rightarrow> Inr w | Some c \<Rightarrow> useKeyboard_cleanup (cleanup_cell c) w)"

text \<open>
  What can happen to a component using the hook: it renders with some arguments (the
  first render mounts it), it unmounts, a ref is pointed at another node or at
  \<^verbatim>\<open>null\<close>, the browser dispatches a keyboard event along a path.
\<close>

datatype keyboard_action =
  RenderWith string fn_id "IKeyboardOptions option"
| UnmountHook
| Attach ref_id "node option"
| Dispatch "js_value list" KeyboardEvent

fun keyboard_step ::
  "keyboard_action \<Rightarrow> dom \<times> useKeyboard_cells option \<Rightarrow>
     js_error + (dom \<times> useKeyboard_cells option)" where
  "keyboard_step (RenderWith k listener options) (w, inst) =
     (case useKeyboard k listener options w inst of
        Inl err \<Rightarrow> Inl err
      | Inr (w', c) \<Rightarrow> Inr (w', Some c))"
| "keyboard_step UnmountHook (w, inst) =
     (case useKeyboard_unmount w inst of Inl err \<Rightarrow> Inl err | Inr w' \<Rightarrow> Inr (w', None))"
| "keyboard_step (Attach r n) (w, inst) = Inr (w\<lparr>current := (current w)(r := n)\<rparr>, inst)"
| "keyboard_step (Dispatch path e) (w, inst) = Inr (snd (dispatchEvent path e w), inst)"

fun keyboard_run ::
  "keyboard_action list \<Rightarrow> dom \<times> useKeyboard_cells option \<Rightarrow>
     js_error + (dom \<times> useKeyboard_cells option)" where
  "keyboard_run [] s = Inr s"
| "keyboard_run (a # as) s =
     (case keyboard_step a s of Inl err \<Rightarrow> Inl err | Inr s' \<Rightarrow> keyboard_run as s')"

text \<open>A page on which nothing is subscribed yet and no component is mounted.\<close>

definition fresh_page :: "(ref_id \<Rightarrow> node option) \<Rightarrow> dom \<times> useKeyboard_cells option" where
  "fresh_page cur =
     (\<lparr>current = cur, listeners = [], next_fn = 0, calls = [], invoked = []\<rparr>, None)"

section \<open>Observations and example inputs\<close>

text \<open>What a run of the component leaves in the cells of usePosition.\<close>

definition observe_position ::
  "js_error + ('a layout \<times> usePosition_cells option) \<Rightarrow> js_error + usePosition_cells option" where
  "observe_position res = map_sum id snd res"

text \<open>
  A page where ref object 0 points to node 1, a small box in the top left corner, and
  node 2 is the box of the spec's example, in the spec's viewport of 800 by 600.
\<close>

definition example_layout :: "int layout" where
  "example_layout =
     \<lparr>current = (\<lambda>_. None)(0 := Some 1),
      rect = (\<lambda>_. \<lparr>right = 100, bottom = 100, width = 50, height = 50\<rparr>)
               (2 := \<lparr>right = 700, bottom = 500, width = 200, height = 100\<rparr>),
      window = \<lparr>innerWidth = 800, innerHeight = 600\<rparr>\<rparr>"

text \<open>The same page before ref object 0 points to anything.\<close>

definition empty_layout :: "int layout" where
  "empty_layout = example_layout\<lparr>current := (\<lambda>_. None)\<rparr>"

text \<open>
  An invariant of the cells of usePosition: as long as no measurement was made, the
  position is the initial one.
\<close>

definition unmeasured_default :: "usePosition_cells option \<Rightarrow> bool" where
  "unmeasured_default inst =
     (case inst of
        None \<Rightarrow> True
      | Some c \<Rightarrow> measurements c \<noteq> 0 \<or> position c = (align_right, side_bottom))"

text \<open>What a run leaves on the page of useKeyboard: the listeners and the two logs.\<close>

definition observe_keyboard ::
  "js_error + (dom \<times> useKeyboard_cells option) \<Rightarrow>
     js_error + ((js_value \<times> TKeyboardEvent \<times> closure) list \<times> dom_call list \<times>
                 (fn_id \<times> KeyboardEvent) list)" where
  "observe_keyboard res = map_sum id (\<lambda>s. (listeners (fst s), calls (fst s), invoked (fst s))) res"

text \<open>A fresh page on which no ref points to a node, and a press of the Enter key.\<close>

definition blank_page :: "dom \<times> useKeyboard_cells option" where
  "blank_page = fresh_page (\<lambda>_. None)"

definition enter_down :: KeyboardEvent where
  "enter_down =
     \<lparr>type = keydown, key = ''Enter'', cancelable = True, defaultPrevented = False,
      preventDefault_calls = 0\<rparr>"

text \<open>A fresh page on which ref object 3 points to node 4.\<close>

definition page_with_node :: "dom \<times> useKeyboard_cells option" where
  "page_with_node = fresh_page ((\<lambda>_. None)(3 := Some 4))"

text \<open>
  The blank page after a component mounted on it with
  \<^verbatim>\<open>useKeyboard("Enter", listener)\<close>, the listener being function 7, and the cells of
  that component.
\<close>

definition enter_handler :: closure where
  "enter_handler = \<lparr>fn = 0, c_key = ''Enter'', c_preventDefault = True, c_listener = 7\<rparr>"

definition enter_page :: dom where
  "enter_page =
     (fst blank_page)\<lparr>listeners := [(document, keydown, enter_handler)], next_fn := 1,
                       calls := [AddListener document keydown 0]\<rparr>"

definition enter_cells :: useKeyboard_cells where
  "enter_cells =
     \<lparr>callback_cell = (enter_handler, ''Enter''), effect_deps_cell = (keydown, 0, None),
      cleanup_cell = (document, keydown, enter_handler)\<rparr>"

text \<open>
  A log of calls in which every \<^verbatim>\<open>addEventListener\<close> is followed at once by a
  \<^verbatim>\<open>removeEventListener\<close> on the same target, for the same event type, with the same
  function.
\<close>

fun balanced :: "dom_call list \<Rightarrow> bool" where
  "balanced [] = True"
| "balanced (AddListener t ev f # RemoveListener t' ev' f' # rest) =
     (t = t' \<and> ev = ev' \<and> f = f' \<and> balanced rest)"
| "balanced _ = False"

text \<open>The calls made since the page was in state \<open>w0\<close>.\<close>

definition new_calls :: "dom \<Rightarrow> dom \<Rightarrow> dom_call list" where
  "new_calls w0 w = drop (length (calls w0)) (calls w)"

text \<open>
  A page on which the component is about to mount may carry the listeners of other
  components. Their function objects exist already, so their identities are below the
  next unused one.
\<close>

definition page_ok :: "dom \<Rightarrow> bool" where
  "page_ok w0 = list_all (\<lambda>l. fn (snd (snd l)) < next_fn w0) (listeners w0)"

text \<open>
  The invariant of a component that mounted on page \<open>w0\<close>. Unmounted, the listeners
  are those of \<open>w0\<close> and the calls since then are balanced. Mounted, there is exactly
  one more listener: the one the cleanup closure will remove, registered with the
  memoized function, whose captured key is the memoized dependency; and the calls
  since \<open>w0\<close> become balanced by that removal.
\<close>

definition hook_inv :: "dom \<Rightarrow> dom \<Rightarrow> useKeyboard_cells option \<Rightarrow> bool" where
  "hook_inv w0 w inst =
     (next_fn w0 \<le> next_fn w \<and> calls w = calls w0 @ new_calls w0 w \<and>
      (case inst of
         None \<Rightarrow> listeners w = listeners w0 \<and> balanced (new_calls w0 w)
       | Some c \<Rightarrow>
           (case cleanup_cell c of
              (t, ev, h) \<Rightarrow>
                truthy t \<and> h = fst (callback_cell c) \<and>
                fst (effect_deps_cell c) = ev \<and> fst (snd (effect_deps_cell c)) = fn h \<and>
                c_key h = snd (callback_cell c) \<and>
                next_fn w0 \<le> fn h \<and> fn h < next_fn w \<and>
                listeners w = listeners w0 @ [(t, ev, h)] \<and>
                balanced (new_calls w0 w @ [RemoveListener t ev (fn h)]))))"

section \<open>Properties of usePosition\<close>

lemma usePosition_effect_absent:
  "current L r = None \<Longrightarrow>
     usePosition_effect r L c = Inr (c\<lparr>effect_runs := Suc (effect_runs c)\<rparr>)"
  by (simp add: usePosition_effect_def Let_def)

lemma usePosition_effect_present:
  "current L r = Some n \<Longrightarrow>
     usePosition_effect r L c =
       Inr (c\<lparr>effect_runs := Suc (effect_runs c),
              position := measure_popup (rect L n) (window L),
              measurements := Suc (measurements c)\<rparr>)"
  by (simp add: usePosition_effect_def getBoundingClientRect_def Let_def)

lemma usePosition_effect_total: "\<exists>c'. usePosition_effect r L c = Inr c'"
  by (cases "current L r") (simp_all add: usePosition_effect_absent usePosition_effect_present)

lemma usePosition_effect_keeps_deps:
  "usePosition_effect r L c = Inr c' \<Longrightarrow> effect_deps c' = effect_deps c"
  by (cases "current L r") (auto simp: usePosition_effect_absent usePosition_effect_present)

lemma usePosition_effect_counts_run:
  "usePosition_effect r L c = Inr c' \<Longrightarrow> effect_runs c' = Suc (effect_runs c)"
  by (cases "current L r") (auto simp: usePosition_effect_absent usePosition_effect_present)

lemma usePosition_mount:
  "usePosition_effect r L
      \<lparr>position = (align_right, side_bottom), effect_deps = Some r,
       effect_runs = 0, measurements = 0\<rparr> = Inr c' \<Longrightarrow>
   usePosition r L None = Inr ((align_right, side_bottom), c')"
  by (simp add: usePosition_def Let_def)

lemma usePosition_same_ref:
  "effect_deps c = Some r \<Longrightarrow> usePosition r L (Some c) = Inr (position c, c)"
  by (simp add: usePosition_def Let_def)

lemma usePosition_new_ref:
  "effect_deps c \<noteq> Some r \<Longrightarrow>
   usePosition_effect r L (c\<lparr>effect_deps := Some r\<rparr>) = Inr c' \<Longrightarrow>
     usePosition r L (Some c) = Inr (position c, c')"
  by (simp add: usePosition_def Let_def)

lemma usePosition_unmeasured:
  assumes "unmeasured_default inst" and "usePosition r L inst = Inr (v, c')"
  shows "unmeasured_default (Some c')"
proof (cases "current L r")
  case None
  with assms show ?thesis
    by (cases inst)
       (auto simp: unmeasured_default_def usePosition_def Let_def usePosition_effect_absent
             split: if_splits)
next
  case (Some n)
  with assms show ?thesis
    by (cases inst)
       (auto simp: unmeasured_default_def usePosition_def Let_def usePosition_effect_present
             split: if_splits)
qed

lemma position_step_unmeasured:
  "unmeasured_default (snd s) \<Longrightarrow> position_step a s = Inr s' \<Longrightarrow>
     unmeasured_default (snd s')"
  by (cases a; cases s)
     (auto simp: unmeasured_default_def[of None] split: sum.splits dest: usePosition_unmeasured)

lemma position_run_unmeasured:
  "unmeasured_default (snd s) \<Longrightarrow> position_run acts s = Inr s' \<Longrightarrow>
     unmeasured_default (snd s')"
proof (induction acts arbitrary: s)
  case Nil
  then show ?case by simp
next
  case (Cons a acts)
  then show ?case
    by (auto split: sum.splits dest: position_step_unmeasured)
qed

lemma usePosition_total: "\<exists>v c. usePosition r L inst = Inr (v, c)"
  using usePosition_effect_total usePosition_mount usePosition_same_ref usePosition_new_ref
  by (cases inst) blast+

lemma position_step_total: "\<exists>s'. position_step a s = Inr s'"
proof (cases s)
  case (Pair L inst)
  show ?thesis
  proof (cases a)
    case (Render r)
    with Pair usePosition_total[of r L inst] show ?thesis by auto
  qed (simp_all add: Pair)
qed

lemma position_run_total: "\<exists>s'. position_run acts s = Inr s'"
proof (induction acts arbitrary: s)
  case Nil
  show ?case by simp
next
  case (Cons a acts)
  obtain s1 where "position_step a s = Inr s1"
    using position_step_total by blast
  with Cons[of s1] show ?case by simp
qed

text \<open>
  C1. The measurement computes alignment left exactly when
  \<open>innerWidth - right \<le> width\<close>, else right, and side top exactly when
  \<open>innerHeight - bottom \<le> height\<close>, else bottom; this pair is what the effect publishes
  for the node the ref points to; and the box 700, 500, 200, 100 in the viewport
  800 by 600 gets left and top.
\<close>

theorem measurement_rule:
  "measure_popup popup win =
     (if innerWidth win - right popup \<le> width popup then align_left else align_right,
      if innerHeight win - bottom popup \<le> height popup then side_top else side_bottom)
   \<and> usePosition_effect r (L\<lparr>current := (current L)(r := Some n)\<rparr>) c =
       Inr (c\<lparr>effect_runs := Suc (effect_runs c),
              position := measure_popup (rect L n) (window L),
              measurements := Suc (measurements c)\<rparr>)
   \<and> measure_popup \<lparr>right = 700 :: int, bottom = 500, width = 200, height = 100\<rparr>
         \<lparr>innerWidth = 800, innerHeight = 600\<rparr> = (align_left, side_top)"
  by (simp add: measure_popup_def usePosition_effect_def getBoundingClientRect_def Let_def)

text \<open>
  C10. The alignment is the same for two inputs that agree on \<open>innerWidth\<close>,
  \<open>right\<close> and \<open>width\<close>, whatever their other three numbers are; the side is the same
  for two inputs that agree on \<open>innerHeight\<close>, \<open>bottom\<close> and \<open>height\<close>.
\<close>

theorem axes_independent:
  "(innerWidth w1 = innerWidth w2 \<and> right p1 = right p2 \<and> width p1 = width p2
      \<longrightarrow> fst (measure_popup p1 w1) = fst (measure_popup p2 w2))
   \<and> (innerHeight w1 = innerHeight w2 \<and> bottom p1 = bottom p2 \<and> height p1 = height p2
      \<longrightarrow> snd (measure_popup p1 w1) = snd (measure_popup p2 w2))"
  by (simp add: measure_popup_def Let_def)

theorem axes_independent_witness:
  "fst (measure_popup \<lparr>right = 700 :: int, bottom = 500, width = 200, height = 100\<rparr>
         \<lparr>innerWidth = 800, innerHeight = 600\<rparr>)
   = fst (measure_popup \<lparr>right = 700 :: int, bottom = 10, width = 200, height = 1\<rparr>
         \<lparr>innerWidth = 800, innerHeight = 1000\<rparr>)
   \<and> snd (measure_popup \<lparr>right = 700 :: int, bottom = 500, width = 200, height = 100\<rparr>
         \<lparr>innerWidth = 800, innerHeight = 600\<rparr>)
   = snd (measure_popup \<lparr>right = 10 :: int, bottom = 500, width = 1, height = 100\<rparr>
         \<lparr>innerWidth = 1000, innerHeight = 600\<rparr>)"
  using axes_independent
    [of "\<lparr>innerWidth = 800 :: int, innerHeight = 600\<rparr>"
        "\<lparr>innerWidth = 800, innerHeight = 1000\<rparr>"
        "\<lparr>right = 700, bottom = 500, width = 200, height = 100\<rparr>"
        "\<lparr>right = 700, bottom = 10, width = 200, height = 1\<rparr>"]
   axes_independent
    [of "\<lparr>innerWidth = 800 :: int, innerHeight = 600\<rparr>"
        "\<lparr>innerWidth = 1000, innerHeight = 600\<rparr>"
        "\<lparr>right = 700, bottom = 500, width = 200, height = 100\<rparr>"
        "\<lparr>right = 10, bottom = 500, width = 1, height = 100\<rparr>"]
  by simp

text \<open>
  C5. The first render returns right and bottom, and so does every state of every run
  in which no measurement was made yet. When the ref points to no node, the effect only
  counts its run: no measurement, the position is retained (the initial one at mount,
  the previous one on a later render). No render and no run raises an error.
\<close>

theorem default_until_measured:
  "(\<exists>c1. usePosition r L None = Inr ((align_right, side_bottom), c1))
   \<and> (position_run acts (L, None) = Inr (L', Some c') \<and> measurements c' = 0
        \<longrightarrow> position c' = (align_right, side_bottom))
   \<and> (current L r = None \<longrightarrow>
        usePosition_effect r L c = Inr (c\<lparr>effect_runs := Suc (effect_runs c)\<rparr>)
        \<and> (\<exists>c1. usePosition r L None = Inr ((align_right, side_bottom), c1)
               \<and> position c1 = (align_right, side_bottom) \<and> measurements c1 = 0)
        \<and> (\<exists>c1. usePosition r L (Some c) = Inr (position c, c1)
               \<and> position c1 = position c \<and> measurements c1 = measurements c))
   \<and> (\<exists>v c1. usePosition r L inst = Inr (v, c1))
   \<and> (\<exists>s. position_run acts (L, inst) = Inr s)"
proof (intro conjI impI)
  show "\<exists>c1. usePosition r L None = Inr ((align_right, side_bottom), c1)"
    using usePosition_effect_total usePosition_mount by blast
  show "\<exists>v c1. usePosition r L inst = Inr (v, c1)"
    by (rule usePosition_total)
  show "\<exists>s. position_run acts (L, inst) = Inr s"
    by (rule position_run_total)
next
  assume run: "position_run acts (L, None) = Inr (L', Some c') \<and> measurements c' = 0"
  have "unmeasured_default (snd (L, None :: usePosition_cells option))"
    by (simp add: unmeasured_default_def)
  with run have "unmeasured_default (snd (L', Some c'))"
    using position_run_unmeasured by blast
  with run show "position c' = (align_right, side_bottom)"
    by (simp add: unmeasured_default_def)
next
  assume absent: "current L r = None"
  then show "usePosition_effect r L c = Inr (c\<lparr>effect_runs := Suc (effect_runs c)\<rparr>)"
    by (rule usePosition_effect_absent)
  from absent
  show "\<exists>c1. usePosition r L None = Inr ((align_right, side_bottom), c1)
               \<and> position c1 = (align_right, side_bottom) \<and> measurements c1 = 0"
    by (simp add: usePosition_mount usePosition_effect_absent)
  from absent
  show "\<exists>c1. usePosition r L (Some c) = Inr (position c, c1)
               \<and> position c1 = position c \<and> measurements c1 = measurements c"
    by (cases "effect_deps c = Some r")
       (simp_all add: usePosition_same_ref usePosition_new_ref usePosition_effect_absent)
qed

theorem default_until_measured_witness:
  "current empty_layout 0 = None
   \<and> position_run [Render 0, Resize \<lparr>innerWidth = 10, innerHeight = 10\<rparr>, Render 0]
        (empty_layout, None)
     = Inr (empty_layout\<lparr>window := \<lparr>innerWidth = 10, innerHeight = 10\<rparr>\<rparr>,
            Some \<lparr>position = (align_right, side_bottom), effect_deps = Some 0,
                  effect_runs = 1, measurements = 0\<rparr>)
   \<and> usePosition_effect 0 empty_layout
        \<lparr>position = (align_left, side_top), effect_deps = Some 0,
         effect_runs = 1, measurements = 1\<rparr>
     = Inr \<lparr>position = (align_left, side_top), effect_deps = Some 0,
            effect_runs = 2, measurements = 1\<rparr>"
  using default_until_measured
    [of 0 empty_layout
        "[Render 0, Resize \<lparr>innerWidth = 10, innerHeight = 10\<rparr>, Render 0]"
        "empty_layout\<lparr>window := \<lparr>innerWidth = 10, innerHeight = 10\<rparr>\<rparr>"
        "\<lparr>position = (align_right, side_bottom), effect_deps = Some 0,
          effect_runs = 1, measurements = 0\<rparr>"
        "\<lparr>position = (align_left, side_top), effect_deps = Some 0,
          effect_runs = 1, measurements = 1\<rparr>"
        None]
  by (simp add: empty_layout_def example_layout_def usePosition_def usePosition_effect_def
        Let_def)

text \<open>
  C8. Running the effect a second time on the same ref, boxes and window publishes the
  position that the first run published; and a render that follows a render with the
  same ref object changes nothing at all.
\<close>

theorem measurement_idempotent:
  "(\<exists>c1 c2. usePosition_effect r L c = Inr c1 \<and> usePosition_effect r L c1 = Inr c2
       \<and> position c2 = position c1)
   \<and> (\<exists>v1 c1. usePosition r L inst = Inr (v1, c1)
       \<and> usePosition r L (Some c1) = Inr (position c1, c1))"
proof (rule conjI)
  show "\<exists>c1 c2. usePosition_effect r L c = Inr c1 \<and> usePosition_effect r L c1 = Inr c2
       \<and> position c2 = position c1"
    by (cases "current L r")
       (simp_all add: usePosition_effect_absent usePosition_effect_present)
next
  have deps: "\<exists>v1 c1. usePosition r L inst = Inr (v1, c1) \<and> effect_deps c1 = Some r"
  proof (cases inst)
    case None
    obtain c' where e: "usePosition_effect r L
      \<lparr>position = (align_right, side_bottom), effect_deps = Some r,
       effect_runs = 0, measurements = 0\<rparr> = Inr c'"
      using usePosition_effect_total by blast
    from usePosition_effect_keeps_deps[OF e] usePosition_mount[OF e] None
    show ?thesis by simp
  next
    case (Some c0)
    show ?thesis
    proof (cases "effect_deps c0 = Some r")
      case True
      with Some show ?thesis by (simp add: usePosition_same_ref)
    next
      case False
      obtain c' where e: "usePosition_effect r L (c0\<lparr>effect_deps := Some r\<rparr>) = Inr c'"
        using usePosition_effect_total by blast
      from usePosition_effect_keeps_deps[OF e] usePosition_new_ref[OF False e] Some
      show ?thesis by simp
    qed
  qed
  then show "\<exists>v1 c1. usePosition r L inst = Inr (v1, c1)
       \<and> usePosition r L (Some c1) = Inr (position c1, c1)"
    using usePosition_same_ref by blast
qed

text \<open>
  C6, as the spec states it, fails. Ref object 0 points to node 1 at mount and the
  effect measures it. The ref is then pointed at node 2, whose box would be placed left
  and top, and the component renders again with the same ref object: the effect does
  not run (one run, one measurement, as before) and the position is still the one of
  node 1.
\<close>

theorem node_change_not_remeasured:
  "observe_position (position_run [Render 0] (example_layout, None)) =
     Inr (Some \<lparr>position = (align_right, side_bottom), effect_deps = Some 0,
                 effect_runs = 1, measurements = 1\<rparr>)
   \<and> observe_position
       (position_run [Render 0, SetCurrent 0 (Some 2), Render 0] (example_layout, None)) =
     Inr (Some \<lparr>position = (align_right, side_bottom), effect_deps = Some 0,
                 effect_runs = 1, measurements = 1\<rparr>)
   \<and> measure_popup (rect example_layout 2) (window example_layout) = (align_left, side_top)"
  by (simp add: observe_position_def example_layout_def usePosition_def
        usePosition_effect_def getBoundingClientRect_def measure_popup_def Let_def)

text \<open>
  C6, amended. The effect runs once at mount. On a later render it runs exactly when
  the ref object passed to the hook is not the one of the previous render: with the
  same ref object the render leaves the cells as they are, whatever the page looks like
  by then. Pointing the ref at another node, resizing the window and scrolling leave
  the cells as they are.
\<close>

theorem remeasured_on_ref_object_change:
  "(\<exists>c1. usePosition r L None = Inr ((align_right, side_bottom), c1) \<and> effect_runs c1 = 1)
   \<and> (effect_deps c = Some r \<longrightarrow> usePosition r L (Some c) = Inr (position c, c))
   \<and> (effect_deps c \<noteq> Some r \<longrightarrow>
        (\<exists>c1. usePosition r L (Some c) = Inr (position c, c1)
               \<and> effect_runs c1 = Suc (effect_runs c)))
   \<and> (\<exists>L1. position_step (SetCurrent r' n) (L, inst) = Inr (L1, inst))
   \<and> (\<exists>L1. position_step (Resize w) (L, inst) = Inr (L1, inst))
   \<and> (\<exists>L1. position_step (Scroll rs) (L, inst) = Inr (L1, inst))"
proof (intro conjI impI)
  obtain c' where e: "usePosition_effect r L
      \<lparr>position = (align_right, side_bottom), effect_deps = Some r,
       effect_runs = 0, measurements = 0\<rparr> = Inr c'"
    using usePosition_effect_total by blast
  from usePosition_effect_counts_run[OF e] usePosition_mount[OF e]
  show "\<exists>c1. usePosition r L None = Inr ((align_right, side_bottom), c1) \<and> effect_runs c1 = 1"
    by simp
next
  assume "effect_deps c = Some r"
  then show "usePosition r L (Some c) = Inr (position c, c)"
    by (rule usePosition_same_ref)
next
  assume new: "effect_deps c \<noteq> Some r"
  obtain c' where e: "usePosition_effect r L (c\<lparr>effect_deps := Some r\<rparr>) = Inr c'"
    using usePosition_effect_total by blast
  from usePosition_effect_counts_run[OF e] usePosition_new_ref[OF new e]
  show "\<exists>c1. usePosition r L (Some c) = Inr (position c, c1)
               \<and> effect_runs c1 = Suc (effect_runs c)"
    by simp
qed simp_all

theorem remeasured_on_ref_object_change_witness:
  "usePosition 0 (example_layout\<lparr>current := (current example_layout)(0 := Some 2)\<rparr>)
      (Some \<lparr>position = (align_right, side_bottom), effect_deps = Some 0,
             effect_runs = 1, measurements = 1\<rparr>)
     = Inr ((align_right, side_bottom),
            \<lparr>position = (align_right, side_bottom), effect_deps = Some 0,
             effect_runs = 1, measurements = 1\<rparr>)
   \<and> usePosition 5 (example_layout\<lparr>current := (current example_layout)(5 := Some 2)\<rparr>)
      (Some \<lparr>position = (align_right, side_bottom), effect_deps = Some 0,
             effect_runs = 1, measurements = 1\<rparr>)
     = Inr ((align_right, side_bottom),
            \<lparr>position = (align_left, side_top), effect_deps = Some 5,
             effect_runs = 2, measurements = 2\<rparr>)"
  using remeasured_on_ref_object_change
    [of 0 "example_layout\<lparr>current := (current example_layout)(0 := Some 2)\<rparr>"
        "\<lparr>position = (align_right, side_bottom), effect_deps = Some 0,
          effect_runs = 1, measurements = 1\<rparr>"]
   remeasured_on_ref_object_change
    [of 5 "example_layout\<lparr>current := (current example_layout)(5 := Some 2)\<rparr>"
        "\<lparr>position = (align_right, side_bottom), effect_deps = Some 0,
          effect_runs = 1, measurements = 1\<rparr>"]
  by (simp add: example_layout_def usePosition_def usePosition_effect_def
        getBoundingClientRect_def measure_popup_def Let_def)

section \<open>Properties of useKeyboard\<close>

lemma balanced_append: "balanced xs \<Longrightarrow> balanced ys \<Longrightarrow> balanced (xs @ ys)"
  by (induction xs rule: balanced.induct) auto

lemma balanced_snoc_pair:
  "balanced xs \<Longrightarrow> balanced (xs @ [AddListener t ev f, RemoveListener t ev f])"
  by (rule balanced_append) simp_all

lemma target_of_cases:
  "target_of cur r =
     (case r of
        None \<Rightarrow> document
      | Some r' \<Rightarrow> (case cur r' of None \<Rightarrow> document | Some n \<Rightarrow> HTMLElement n))"
  by (simp add: target_of_def js_or_def truthy_def optional_current_def split: option.splits)

lemma truthy_target: "truthy (target_of cur r)"
  by (simp add: target_of_cases truthy_def split: option.splits)

lemma filter_own:
  assumes "page_ok w0" "next_fn w0 \<le> fn h"
  shows "filter (\<lambda>l. \<not> same_listener t ev (fn h) l) (listeners w0 @ [(t, ev, h)]) = listeners w0"
proof -
  have "\<forall>l \<in> set (listeners w0). \<not> same_listener t ev (fn h) l"
    using assms by (auto simp: page_ok_def list_all_iff same_listener_def)
  then have "filter (\<lambda>l. \<not> same_listener t ev (fn h) l) (listeners w0) = listeners w0"
    by (simp add: filter_id_conv)
  then show ?thesis by (simp add: same_listener_def)
qed

lemma not_registered:
  assumes "page_ok w0" "next_fn w0 \<le> fn h"
  shows "\<not> list_ex (same_listener t ev (fn h)) (listeners w0)"
  using assms by (auto simp: page_ok_def list_all_iff list_ex_iff same_listener_def)

lemma effect_inv:
  assumes "page_ok w0" "next_fn w0 \<le> fn h" "listeners w = listeners w0"
  shows "useKeyboard_effect ev h r w =
           Inr (w\<lparr>listeners := listeners w0 @ [(target_of (current w) r, ev, h)],
                  calls := calls w @ [AddListener (target_of (current w) r) ev (fn h)]\<rparr>,
                (target_of (current w) r, ev, h))"
  using not_registered[OF assms(1,2)] assms(3)
  by (simp add: useKeyboard_effect_def addEventListener_def truthy_target Let_def)

lemma cleanup_inv:
  assumes "page_ok w0" "next_fn w0 \<le> fn h" "listeners w = listeners w0 @ [(t, ev, h)]" "truthy t"
  shows "useKeyboard_cleanup (t, ev, h) w =
           Inr (w\<lparr>listeners := listeners w0, calls := calls w @ [RemoveListener t ev (fn h)]\<rparr>)"
  using filter_own[OF assms(1,2)] assms(3,4)
  by (simp add: useKeyboard_cleanup_def removeEventListener_def)

lemma hook_inv_initial: "hook_inv w0 w0 None"
  by (simp add: hook_inv_def new_calls_def)

lemma new_calls_append:
  "calls w = calls w0 @ new_calls w0 w \<Longrightarrow> calls w' = calls w @ xs \<Longrightarrow>
     new_calls w0 w' = new_calls w0 w @ xs \<and> calls w' = calls w0 @ new_calls w0 w'"
  by (metis append.assoc append_eq_conv_conj new_calls_def)

lemma mount_eq:
  assumes ok: "page_ok w0" and fresh: "next_fn w0 \<le> next_fn w" and ls: "listeners w = listeners w0"
  shows "useKeyboard k l options w None =
           Inr (w\<lparr>next_fn := Suc (next_fn w),
                  listeners := listeners w0 @
                    [(target_of (current w) (ref_of options),
                      event_of options,
                      \<lparr>fn = next_fn w, c_key = k, c_preventDefault = preventDefault_of options,
                       c_listener = l\<rparr>)],
                  calls := calls w @
                    [AddListener (target_of (current w) (ref_of options))
                       (event_of options) (next_fn w)]\<rparr>,
                \<lparr>callback_cell =
                   (\<lparr>fn = next_fn w, c_key = k, c_preventDefault = preventDefault_of options,
                     c_listener = l\<rparr>, k),
                 effect_deps_cell = (event_of options, next_fn w, ref_of options),
                 cleanup_cell =
                   (target_of (current w) (ref_of options),
                    event_of options,
                    \<lparr>fn = next_fn w, c_key = k, c_preventDefault = preventDefault_of options,
                     c_listener = l\<rparr>)\<rparr>)"
proof -
  let ?h = "\<lparr>fn = next_fn w, c_key = k, c_preventDefault = preventDefault_of options,
              c_listener = l\<rparr>"
  have "useKeyboard_effect (event_of options) ?h (ref_of options) (w\<lparr>next_fn := Suc (next_fn w)\<rparr>)
        = Inr ((w\<lparr>next_fn := Suc (next_fn w)\<rparr>)\<lparr>listeners := listeners w0 @
                    [(target_of (current (w\<lparr>next_fn := Suc (next_fn w)\<rparr>)) (ref_of options),
                      event_of options, ?h)],
                  calls := calls (w\<lparr>next_fn := Suc (next_fn w)\<rparr>) @
                    [AddListener (target_of (current (w\<lparr>next_fn := Suc (next_fn w)\<rparr>)) (ref_of options))
                       (event_of options) (fn ?h)]\<rparr>,
               (target_of (current (w\<lparr>next_fn := Suc (next_fn w)\<rparr>)) (ref_of options),
                    event_of options, ?h))"
    by (rule effect_inv[OF ok]) (use fresh ls in simp_all)
  then show ?thesis
    by (simp add: useKeyboard_def Let_def)
qed

lemma hook_inv_SomeD:
  assumes "hook_inv w0 w (Some c)"
  shows "cleanup_cell c = (fst (cleanup_cell c), fst (effect_deps_cell c), fst (callback_cell c))"
    and "effect_deps_cell c =
           (fst (effect_deps_cell c), fn (fst (callback_cell c)), snd (snd (effect_deps_cell c)))"
    and "truthy (fst (cleanup_cell c))"
    and "c_key (fst (callback_cell c)) = snd (callback_cell c)"
    and "next_fn w0 \<le> fn (fst (callback_cell c))"
    and "fn (fst (callback_cell c)) < next_fn w"
    and "listeners w = listeners w0 @ [cleanup_cell c]"
    and "balanced (new_calls w0 w @
           [RemoveListener (fst (cleanup_cell c)) (fst (effect_deps_cell c))
              (fn (fst (callback_cell c)))])"
    and "calls w = calls w0 @ new_calls w0 w"
    and "next_fn w0 \<le> next_fn w"
  using assms
  by (auto simp: hook_inv_def split: prod.splits) (metis prod.collapse)+

lemma update_same:
  assumes inv: "hook_inv w0 w (Some c)"
    and same: "snd (callback_cell c) = k" "fst (effect_deps_cell c) = event_of options"
              "snd (snd (effect_deps_cell c)) = ref_of options"
  shows "useKeyboard k l options w (Some c) = Inr (w\<lparr>next_fn := Suc (next_fn w)\<rparr>, c)"
proof -
  have "effect_deps_cell c = (event_of options, fn (fst (callback_cell c)), ref_of options)"
    using hook_inv_SomeD(2)[OF inv] same by simp
  moreover have "c\<lparr>callback_cell := (fst (callback_cell c), k)\<rparr> = c"
    using same(1) by (cases c) auto
  ultimately show ?thesis
    using same(1) by (simp add: useKeyboard_def Let_def)
qed

lemma update_resubscribe:
  assumes ok: "page_ok w0" and inv: "hook_inv w0 w (Some c)"
    and diff: "snd (callback_cell c) \<noteq> k \<or> fst (effect_deps_cell c) \<noteq> event_of options
               \<or> snd (snd (effect_deps_cell c)) \<noteq> ref_of options"
    and handler: "handler = (if snd (callback_cell c) = k then fst (callback_cell c)
                    else \<lparr>fn = next_fn w, c_key = k, c_preventDefault = preventDefault_of options,
                          c_listener = l\<rparr>)"
    and target: "t = target_of (current w) (ref_of options)"
  shows "useKeyboard k l options w (Some c) =
           Inr (w\<lparr>next_fn := Suc (next_fn w),
                  listeners := listeners w0 @ [(t, event_of options, handler)],
                  calls := calls w @
                    [RemoveListener (fst (cleanup_cell c)) (fst (effect_deps_cell c))
                       (fn (fst (callback_cell c))),
                     AddListener t (event_of options) (fn handler)]\<rparr>,
                \<lparr>callback_cell = (handler, k),
                 effect_deps_cell = (event_of options, fn handler, ref_of options),
                 cleanup_cell = (t, event_of options, handler)\<rparr>)"
proof -
  note D = hook_inv_SomeD[OF inv]
  let ?w1 = "w\<lparr>next_fn := Suc (next_fn w)\<rparr>"
  have fn_handler: "next_fn w0 \<le> fn handler"
    using D(5) D(10) handler by simp
  have fn_diff: "snd (callback_cell c) \<noteq> k \<Longrightarrow> fn handler \<noteq> fn (fst (callback_cell c))"
    using D(6) handler by simp
  have deps: "effect_deps_cell c \<noteq> (event_of options, fn handler, ref_of options)"
  proof
    assume e: "effect_deps_cell c = (event_of options, fn handler, ref_of options)"
    then have "fst (effect_deps_cell c) = event_of options"
      and "snd (snd (effect_deps_cell c)) = ref_of options"
      and "fn (fst (callback_cell c)) = fn handler"
      using D(2) by simp_all
    with diff fn_diff show False by auto
  qed
  have cl: "useKeyboard_cleanup (cleanup_cell c) ?w1 =
              Inr (?w1\<lparr>listeners := listeners w0,
                       calls := calls ?w1 @
                         [RemoveListener (fst (cleanup_cell c)) (fst (effect_deps_cell c))
                            (fn (fst (callback_cell c)))]\<rparr>)"
    using cleanup_inv[OF ok D(5), of ?w1 "fst (cleanup_cell c)" "fst (effect_deps_cell c)"]
      D(1) D(3) D(7) by simp
  let ?w2 = "?w1\<lparr>listeners := listeners w0,
                       calls := calls ?w1 @
                         [RemoveListener (fst (cleanup_cell c)) (fst (effect_deps_cell c))
                            (fn (fst (callback_cell c)))]\<rparr>"
  have eff: "useKeyboard_effect (event_of options) handler (ref_of options) ?w2 =
               Inr (?w2\<lparr>listeners := listeners w0 @ [(t, event_of options, handler)],
                        calls := calls ?w2 @ [AddListener t (event_of options) (fn handler)]\<rparr>,
                    (t, event_of options, handler))"
    using effect_inv[OF ok fn_handler, of ?w2 "event_of options" "ref_of options"] target
    by simp
  show ?thesis
    using deps cl eff handler
    by (simp add: useKeyboard_def Let_def)
qed

lemma hook_inv_SomeI:
  assumes "next_fn w0 \<le> next_fn w" "calls w = calls w0 @ new_calls w0 w"
    "truthy t" "next_fn w0 \<le> fn h" "fn h < next_fn w" "c_key h = k"
    "listeners w = listeners w0 @ [(t, ev, h)]"
    "balanced (new_calls w0 w @ [RemoveListener t ev (fn h)])"
  shows "hook_inv w0 w (Some \<lparr>callback_cell = (h, k), effect_deps_cell = (ev, fn h, r),
                               cleanup_cell = (t, ev, h)\<rparr>)"
  using assms by (simp add: hook_inv_def)

lemma hook_inv_NoneD:
  assumes "hook_inv w0 w None"
  shows "listeners w = listeners w0" and "balanced (new_calls w0 w)"
    and "calls w = calls w0 @ new_calls w0 w" and "next_fn w0 \<le> next_fn w"
  using assms by (simp_all add: hook_inv_def)

lemma balanced_snoc_add_remove:
  "balanced xs \<Longrightarrow> balanced ((xs @ [AddListener t ev f]) @ [RemoveListener t ev f])"
  using balanced_snoc_pair by simp

lemma render_inv:
  assumes ok: "page_ok w0" and inv: "hook_inv w0 w inst"
  shows "\<exists>w' c'. useKeyboard k l options w inst = Inr (w', c') \<and> hook_inv w0 w' (Some c')
           \<and> current w' = current w \<and> invoked w' = invoked w"
proof (cases inst)
  case None
  note D = hook_inv_NoneD[OF inv[unfolded None]]
  let ?t = "target_of (current w) (ref_of options)"
  let ?h = "\<lparr>fn = next_fn w, c_key = k, c_preventDefault = preventDefault_of options,
              c_listener = l\<rparr>"
  let ?w' = "w\<lparr>next_fn := Suc (next_fn w),
               listeners := listeners w0 @ [(?t, event_of options, ?h)],
               calls := calls w @ [AddListener ?t (event_of options) (next_fn w)]\<rparr>"
  have nc: "new_calls w0 ?w' = new_calls w0 w @ [AddListener ?t (event_of options) (next_fn w)]"
           "calls ?w' = calls w0 @ new_calls w0 ?w'"
    using new_calls_append[OF D(3), of ?w'] D(3) by simp_all
  have "hook_inv w0 ?w' (Some \<lparr>callback_cell = (?h, k),
          effect_deps_cell = (event_of options, fn ?h, ref_of options),
          cleanup_cell = (?t, event_of options, ?h)\<rparr>)"
  proof (rule hook_inv_SomeI)
    show "balanced (new_calls w0 ?w' @ [RemoveListener ?t (event_of options) (fn ?h)])"
      using balanced_snoc_add_remove[OF D(2)] nc(1) by simp
  qed (use D nc truthy_target in simp_all)
  then show ?thesis
    using mount_eq[OF ok D(4) D(1), of k l options] None by simp
next
  case (Some c)
  note inv' = inv[unfolded Some]
  note D = hook_inv_SomeD[OF inv']
  show ?thesis
  proof (cases "snd (callback_cell c) = k \<and> fst (effect_deps_cell c) = event_of options
                 \<and> snd (snd (effect_deps_cell c)) = ref_of options")
    case True
    have "hook_inv w0 (w\<lparr>next_fn := Suc (next_fn w)\<rparr>) (Some c)"
      using inv' by (auto simp: hook_inv_def new_calls_def split: prod.splits)
    then show ?thesis
      using update_same[OF inv', of k options l] True Some by simp
  next
    case False
    let ?t = "target_of (current w) (ref_of options)"
    let ?h = "if snd (callback_cell c) = k then fst (callback_cell c)
              else \<lparr>fn = next_fn w, c_key = k, c_preventDefault = preventDefault_of options,
                    c_listener = l\<rparr>"
    let ?rm = "RemoveListener (fst (cleanup_cell c)) (fst (effect_deps_cell c))
                 (fn (fst (callback_cell c)))"
    let ?w' = "w\<lparr>next_fn := Suc (next_fn w),
                 listeners := listeners w0 @ [(?t, event_of options, ?h)],
                 calls := calls w @ [?rm, AddListener ?t (event_of options) (fn ?h)]\<rparr>"
    have eq: "useKeyboard k l options w (Some c) =
                Inr (?w', \<lparr>callback_cell = (?h, k),
                      effect_deps_cell = (event_of options, fn ?h, ref_of options),
                      cleanup_cell = (?t, event_of options, ?h)\<rparr>)"
      by (rule update_resubscribe[OF ok inv']) (use False in auto)
    have nc: "new_calls w0 ?w' = new_calls w0 w @ [?rm, AddListener ?t (event_of options) (fn ?h)]"
             "calls ?w' = calls w0 @ new_calls w0 ?w'"
      using new_calls_append[OF D(9), of ?w'] D(9) by simp_all
    have "hook_inv w0 ?w' (Some \<lparr>callback_cell = (?h, k),
            effect_deps_cell = (event_of options, fn ?h, ref_of options),
            cleanup_cell = (?t, event_of options, ?h)\<rparr>)"
    proof (rule hook_inv_SomeI)
      have "balanced ((new_calls w0 w @ [?rm]) @ [AddListener ?t (event_of options) (fn ?h)]
               @ [RemoveListener ?t (event_of options) (fn ?h)])"
        by (rule balanced_append[OF D(8)]) simp
      then show "balanced (new_calls w0 ?w' @ [RemoveListener ?t (event_of options) (fn ?h)])"
        using nc(1) by simp
      show "c_key ?h = k" using D(4) by simp
      show "next_fn w0 \<le> fn ?h" using D(5) D(10) by simp
      show "fn ?h < next_fn ?w'" using D(6) by simp
    qed (use D nc truthy_target in simp_all)
    with eq Some show ?thesis by simp
  qed
qed

lemma unmount_inv:
  assumes ok: "page_ok w0" and inv: "hook_inv w0 w inst"
  shows "\<exists>w'. useKeyboard_unmount w inst = Inr w' \<and> hook_inv w0 w' None
           \<and> current w' = current w \<and> invoked w' = invoked w"
proof (cases inst)
  case None
  with inv show ?thesis by (simp add: useKeyboard_unmount_def)
next
  case (Some c)
  note D = hook_inv_SomeD[OF inv[unfolded Some]]
  let ?rm = "RemoveListener (fst (cleanup_cell c)) (fst (effect_deps_cell c))
                 (fn (fst (callback_cell c)))"
  let ?w' = "w\<lparr>listeners := listeners w0, calls := calls w @ [?rm]\<rparr>"
  have cl: "useKeyboard_cleanup (cleanup_cell c) w = Inr ?w'"
    using cleanup_inv[OF ok D(5), of w "fst (cleanup_cell c)" "fst (effect_deps_cell c)"]
      D(1) D(3) D(7) by simp
  have nc: "new_calls w0 ?w' = new_calls w0 w @ [?rm]"
           "calls ?w' = calls w0 @ new_calls w0 ?w'"
    using new_calls_append[OF D(9), of ?w'] D(9) by simp_all
  have "hook_inv w0 ?w' None"
    using D(8) D(10) nc by (simp add: hook_inv_def)
  with cl Some show ?thesis by (simp add: useKeyboard_unmount_def)
qed

lemma eventHandler_frame:
  "\<exists>e' xs. eventHandler h e w = (e', w\<lparr>invoked := invoked w @ xs\<rparr>)"
proof (cases "key e = c_key h")
  case True
  then have "eventHandler h e w =
      (if c_preventDefault h then Event_preventDefault e else e,
       w\<lparr>invoked := invoked w @
          [(c_listener h, if c_preventDefault h then Event_preventDefault e else e)]\<rparr>)"
    by (simp add: eventHandler_def Let_def)
  then show ?thesis by blast
next
  case False
  then have "eventHandler h e w = (e, w\<lparr>invoked := invoked w @ []\<rparr>)"
    by (simp add: eventHandler_def)
  then show ?thesis by blast
qed

lemma invoke_listeners_frame:
  "\<exists>e' xs. invoke_listeners hs e w = (e', w\<lparr>invoked := invoked w @ xs\<rparr>)"
proof (induction hs arbitrary: e w)
  case Nil
  have "invoke_listeners [] e w = (e, w\<lparr>invoked := invoked w @ []\<rparr>)" by simp
  then show ?case by blast
next
  case (Cons h hs)
  obtain e1 xs where h: "eventHandler h e w = (e1, w\<lparr>invoked := invoked w @ xs\<rparr>)"
    using eventHandler_frame by blast
  obtain e2 ys where
    "invoke_listeners hs e1 (w\<lparr>invoked := invoked w @ xs\<rparr>) =
       (e2, (w\<lparr>invoked := invoked w @ xs\<rparr>)\<lparr>invoked := invoked (w\<lparr>invoked := invoked w @ xs\<rparr>) @ ys\<rparr>)"
    using Cons by blast
  with h have "invoke_listeners (h # hs) e w = (e2, w\<lparr>invoked := invoked w @ (xs @ ys)\<rparr>)"
    by simp
  then show ?case by blast
qed

lemma dispatchEvent_frame:
  "\<exists>e' xs. dispatchEvent path e w = (e', w\<lparr>invoked := invoked w @ xs\<rparr>)"
proof (induction path arbitrary: e w)
  case Nil
  have "dispatchEvent [] e w = (e, w\<lparr>invoked := invoked w @ []\<rparr>)" by simp
  then show ?case by blast
next
  case (Cons t path)
  obtain e1 xs where h: "invoke_listeners (listeners_on t (type e) w) e w =
      (e1, w\<lparr>invoked := invoked w @ xs\<rparr>)"
    using invoke_listeners_frame by blast
  obtain e2 ys where
    "dispatchEvent path e1 (w\<lparr>invoked := invoked w @ xs\<rparr>) =
       (e2, (w\<lparr>invoked := invoked w @ xs\<rparr>)\<lparr>invoked := invoked (w\<lparr>invoked := invoked w @ xs\<rparr>) @ ys\<rparr>)"
    using Cons by blast
  with h have "dispatchEvent (t # path) e w = (e2, w\<lparr>invoked := invoked w @ (xs @ ys)\<rparr>)"
    by simp
  then show ?case by blast
qed

lemma dispatchEvent_no_listeners:
  "listeners w = [] \<Longrightarrow> dispatchEvent path e w = (e, w)"
  by (induction path) (simp_all add: listeners_on_def)

lemma hook_inv_invoked [simp]: "hook_inv w0 (w\<lparr>invoked := x\<rparr>) inst = hook_inv w0 w inst"
  by (cases inst) (simp_all add: hook_inv_def new_calls_def split: prod.splits)

lemma hook_inv_current [simp]: "hook_inv w0 (w\<lparr>current := x\<rparr>) inst = hook_inv w0 w inst"
  by (cases inst) (simp_all add: hook_inv_def new_calls_def split: prod.splits)

lemma step_inv:
  assumes ok: "page_ok w0" and inv: "hook_inv w0 w inst"
  shows "\<exists>w' inst'. keyboard_step a (w, inst) = Inr (w', inst') \<and> hook_inv w0 w' inst'"
proof (cases a)
  case (RenderWith k l options)
  with render_inv[OF ok inv, of k l options] show ?thesis by auto
next
  case UnmountHook
  with unmount_inv[OF ok inv] show ?thesis by auto
next
  case (Attach r n)
  with inv show ?thesis by simp
next
  case (Dispatch path e)
  obtain e' xs where "dispatchEvent path e w = (e', w\<lparr>invoked := invoked w @ xs\<rparr>)"
    using dispatchEvent_frame by blast
  with Dispatch inv show ?thesis by simp
qed

lemma run_inv:
  assumes ok: "page_ok w0"
  shows "hook_inv w0 w inst \<Longrightarrow>
    \<exists>w' inst'. keyboard_run acts (w, inst) = Inr (w', inst') \<and> hook_inv w0 w' inst'"
proof (induction acts arbitrary: w inst)
  case Nil
  then show ?case by simp
next
  case (Cons a acts)
  obtain w1 inst1 where s: "keyboard_step a (w, inst) = Inr (w1, inst1)" "hook_inv w0 w1 inst1"
    using step_inv[OF ok Cons.prems] by blast
  from Cons.IH[OF s(2)] s(1) show ?case by simp
qed

lemma keyboard_run_append:
  "keyboard_run (xs @ ys) s =
     (case keyboard_run xs s of Inl err \<Rightarrow> Inl err | Inr s' \<Rightarrow> keyboard_run ys s')"
  by (induction xs arbitrary: s) (simp_all split: sum.splits)

lemma balanced_two:
  "balanced [v, RemoveListener t ev f] \<Longrightarrow> v = AddListener t ev f"
  by (cases v) auto

lemma balanced_snocD:
  "balanced (xs @ [RemoveListener t ev f]) \<Longrightarrow>
     \<exists>pre. xs = pre @ [AddListener t ev f] \<and> balanced pre"
proof (induction xs rule: balanced.induct)
  case (2 t1 ev1 f1 t2 ev2 f2 rest)
  then obtain pre where "rest = pre @ [AddListener t ev f]" "balanced pre" by auto
  then have "AddListener t1 ev1 f1 # RemoveListener t2 ev2 f2 # rest =
      (AddListener t1 ev1 f1 # RemoveListener t2 ev2 f2 # pre) @ [AddListener t ev f]
      \<and> balanced (AddListener t1 ev1 f1 # RemoveListener t2 ev2 f2 # pre)"
    using 2 by simp
  then show ?case by blast
qed (auto dest: balanced_two)

lemma effect_any:
  "\<exists>w'. useKeyboard_effect ev h r w = Inr (w', (target_of (current w) r, ev, h))
         \<and> calls w' = calls w @ [AddListener (target_of (current w) r) ev (fn h)]
         \<and> list_ex (same_listener (target_of (current w) r) ev (fn h)) (listeners w')
         \<and> current w' = current w \<and> next_fn w' = next_fn w \<and> invoked w' = invoked w"
  by (auto simp: useKeyboard_effect_def addEventListener_def truthy_target Let_def
        same_listener_def list_ex_iff)

lemma mount_any:
  "\<exists>w' c. useKeyboard k l options w None = Inr (w', c)
     \<and> calls w' = calls w @ [AddListener (target_of (current w) (ref_of options))
                                (event_of options) (next_fn w)]
     \<and> cleanup_cell c = (target_of (current w) (ref_of options), event_of options,
          \<lparr>fn = next_fn w, c_key = k, c_preventDefault = preventDefault_of options,
           c_listener = l\<rparr>)
     \<and> fst (callback_cell c) = \<lparr>fn = next_fn w, c_key = k,
          c_preventDefault = preventDefault_of options, c_listener = l\<rparr>
     \<and> list_ex (same_listener (target_of (current w) (ref_of options)) (event_of options)
          (next_fn w)) (listeners w')"
proof -
  let ?h = "\<lparr>fn = next_fn w, c_key = k, c_preventDefault = preventDefault_of options,
             c_listener = l\<rparr>"
  obtain w' where
    "useKeyboard_effect (event_of options) ?h (ref_of options) (w\<lparr>next_fn := Suc (next_fn w)\<rparr>)
       = Inr (w', (target_of (current (w\<lparr>next_fn := Suc (next_fn w)\<rparr>)) (ref_of options),
                   event_of options, ?h))"
    "calls w' = calls (w\<lparr>next_fn := Suc (next_fn w)\<rparr>) @
       [AddListener (target_of (current (w\<lparr>next_fn := Suc (next_fn w)\<rparr>)) (ref_of options))
          (event_of options) (fn ?h)]"
    "list_ex (same_listener (target_of (current (w\<lparr>next_fn := Suc (next_fn w)\<rparr>)) (ref_of options))
        (event_of options) (fn ?h)) (listeners w')"
    using effect_any by blast
  then show ?thesis
    by (simp add: useKeyboard_def Let_def)
qed

lemma run_total:
  "page_ok w0 \<Longrightarrow> \<exists>s. keyboard_run acts (w0, None) = Inr s"
  using run_inv[OF _ hook_inv_initial, of w0 acts] by blast

lemma eventHandler_match:
  "key e = c_key h \<Longrightarrow>
     eventHandler h e w =
       (if c_preventDefault h then Event_preventDefault e else e,
        w\<lparr>invoked := invoked w @
          [(c_listener h, if c_preventDefault h then Event_preventDefault e else e)]\<rparr>)"
  by (simp add: eventHandler_def Let_def)

lemma eventHandler_other: "key e \<noteq> c_key h \<Longrightarrow> eventHandler h e w = (e, w)"
  by (simp add: eventHandler_def)

lemma dispatch_single:
  "listeners w = [(t, ev, h)] \<Longrightarrow>
     dispatchEvent [t] e w = (if type e = ev then eventHandler h e w else (e, w))"
  by (simp add: listeners_on_def split: prod.splits)

lemma cleanup_any:
  "truthy t \<Longrightarrow>
     useKeyboard_cleanup (t, ev, h) w =
       Inr (w\<lparr>listeners := filter (\<lambda>l. \<not> same_listener t ev (fn h) l) (listeners w),
              calls := calls w @ [RemoveListener t ev (fn h)]\<rparr>)"
  by (simp add: useKeyboard_cleanup_def removeEventListener_def)

text \<open>
  C2. The wrapped handler calls the listener exactly once when the key of the event is
  the captured key and not at all otherwise. The listener receives the event itself:
  its type, key and cancelable fields are those of the event. On a match when the
  captured \<^verbatim>\<open>preventDefault\<close> is true, \<^verbatim>\<open>e.preventDefault()\<close> is called once on the
  event before the listener runs, which sets the default-prevented flag of a cancelable
  event; in every other case it is not called and the flag is left as it was. Nothing
  else on the page changes. The handler that a mount registers captures the key, the
  listener and the \<^verbatim>\<open>preventDefault\<close> option of that render, the option being true
  unless false was passed, and a dispatch on the subscribed target runs it for events
  of the subscribed type.
\<close>

theorem handler_fires_on_matching_key:
  "invoked (snd (eventHandler h e w)) =
     invoked w @ (if key e = c_key h then [(c_listener h, fst (eventHandler h e w))] else [])
   \<and> fst (eventHandler h e w) =
       e\<lparr>defaultPrevented :=
            (if key e = c_key h \<and> c_preventDefault h then cancelable e \<or> defaultPrevented e
             else defaultPrevented e),
         preventDefault_calls :=
            (if key e = c_key h \<and> c_preventDefault h then Suc (preventDefault_calls e)
             else preventDefault_calls e)\<rparr>
   \<and> snd (eventHandler h e w) = w\<lparr>invoked := invoked (snd (eventHandler h e w))\<rparr>
   \<and> (\<exists>w1 c. useKeyboard k l options (w\<lparr>listeners := []\<rparr>) None = Inr (w1, c)
         \<and> fst (callback_cell c) =
             \<lparr>fn = next_fn w, c_key = k, c_preventDefault = preventDefault_of options,
              c_listener = l\<rparr>
         \<and> listeners w1 =
             [(target_of (current w) (ref_of options), event_of options, fst (callback_cell c))]
         \<and> invoked w1 = invoked w
         \<and> dispatchEvent [target_of (current w) (ref_of options)] e w1 =
             (if type e = event_of options then eventHandler (fst (callback_cell c)) e w1
              else (e, w1)))
   \<and> preventDefault_of None = True
   \<and> preventDefault_of (Some \<lparr>event = oe, preventDefault = None, ref = orf\<rparr>) = True
   \<and> preventDefault_of (Some \<lparr>event = oe, preventDefault = Some b, ref = orf\<rparr>) = b"
proof (intro conjI)
  show "invoked (snd (eventHandler h e w)) =
     invoked w @ (if key e = c_key h then [(c_listener h, fst (eventHandler h e w))] else [])"
    by (cases "key e = c_key h") (simp_all add: eventHandler_match eventHandler_other)
  show "fst (eventHandler h e w) =
       e\<lparr>defaultPrevented :=
            (if key e = c_key h \<and> c_preventDefault h then cancelable e \<or> defaultPrevented e
             else defaultPrevented e),
         preventDefault_calls :=
            (if key e = c_key h \<and> c_preventDefault h then Suc (preventDefault_calls e)
             else preventDefault_calls e)\<rparr>"
    by (cases "key e = c_key h")
       (simp_all add: eventHandler_match eventHandler_other Event_preventDefault_def)
  show "snd (eventHandler h e w) = w\<lparr>invoked := invoked (snd (eventHandler h e w))\<rparr>"
    by (cases "key e = c_key h") (simp_all add: eventHandler_match eventHandler_other)
  show "preventDefault_of None = True"
    by (simp add: preventDefault_of_def options_or_empty_def)
  show "preventDefault_of (Some \<lparr>event = oe, preventDefault = None, ref = orf\<rparr>) = True"
    by (simp add: preventDefault_of_def options_or_empty_def)
  show "preventDefault_of (Some \<lparr>event = oe, preventDefault = Some b, ref = orf\<rparr>) = b"
    by (simp add: preventDefault_of_def options_or_empty_def)
next
  let ?w0 = "w\<lparr>listeners := []\<rparr>"
  have ok: "page_ok ?w0" by (simp add: page_ok_def)
  let ?h = "\<lparr>fn = next_fn w, c_key = k, c_preventDefault = preventDefault_of options,
             c_listener = l\<rparr>"
  let ?t = "target_of (current w) (ref_of options)"
  let ?w1 = "?w0\<lparr>next_fn := Suc (next_fn ?w0),
                 listeners := listeners ?w0 @ [(?t, event_of options, ?h)],
                 calls := calls ?w0 @ [AddListener ?t (event_of options) (next_fn ?w0)]\<rparr>"
  have m: "useKeyboard k l options ?w0 None =
      Inr (?w1, \<lparr>callback_cell = (?h, k),
                 effect_deps_cell = (event_of options, next_fn ?w0, ref_of options),
                 cleanup_cell = (?t, event_of options, ?h)\<rparr>)"
    using mount_eq[OF ok, of ?w0 k l options] by simp
  have d: "dispatchEvent [?t] e ?w1 =
             (if type e = event_of options then eventHandler ?h e ?w1 else (e, ?w1))"
    by (rule dispatch_single) simp
  show "\<exists>w1 c. useKeyboard k l options (w\<lparr>listeners := []\<rparr>) None = Inr (w1, c)
         \<and> fst (callback_cell c) =
             \<lparr>fn = next_fn w, c_key = k, c_preventDefault = preventDefault_of options,
              c_listener = l\<rparr>
         \<and> listeners w1 =
             [(target_of (current w) (ref_of options), event_of options, fst (callback_cell c))]
         \<and> invoked w1 = invoked w
         \<and> dispatchEvent [target_of (current w) (ref_of options)] e w1 =
             (if type e = event_of options then eventHandler (fst (callback_cell c)) e w1
              else (e, w1))"
    using m d by simp
qed

text \<open>
  C7. Every run of the effect subscribes on \<^verbatim>\<open>ref?.current || document\<close>: the node the
  ref points to when there is a ref and it points to one, the document otherwise. So does
  the mount. Neither raises an error, and no run of the component does.
\<close>

theorem subscription_target:
  "(\<exists>w'. useKeyboard_effect ev h r w = Inr (w', (target_of (current w) r, ev, h))
         \<and> calls w' = calls w @ [AddListener (target_of (current w) r) ev (fn h)]
         \<and> list_ex (same_listener (target_of (current w) r) ev (fn h)) (listeners w'))
   \<and> target_of cur r =
       (case r of
          None \<Rightarrow> document
        | Some r' \<Rightarrow> (case cur r' of None \<Rightarrow> document | Some n \<Rightarrow> HTMLElement n))
   \<and> (\<exists>w' c. useKeyboard k l options w None = Inr (w', c)
         \<and> calls w' = calls w @ [AddListener (target_of (current w) (ref_of options))
                                    (event_of options) (next_fn w)]
         \<and> list_ex (same_listener (target_of (current w) (ref_of options)) (event_of options)
              (next_fn w)) (listeners w'))
   \<and> (page_ok w0 \<longrightarrow> (\<exists>s. keyboard_run acts (w0, None) = Inr s))"
proof (intro conjI impI)
  show "\<exists>w'. useKeyboard_effect ev h r w = Inr (w', (target_of (current w) r, ev, h))
         \<and> calls w' = calls w @ [AddListener (target_of (current w) r) ev (fn h)]
         \<and> list_ex (same_listener (target_of (current w) r) ev (fn h)) (listeners w')"
    using effect_any[of ev h r w] by blast
  show "target_of cur r =
       (case r of
          None \<Rightarrow> document
        | Some r' \<Rightarrow> (case cur r' of None \<Rightarrow> document | Some n \<Rightarrow> HTMLElement n))"
    by (rule target_of_cases)
  show "\<exists>w' c. useKeyboard k l options w None = Inr (w', c)
         \<and> calls w' = calls w @ [AddListener (target_of (current w) (ref_of options))
                                    (event_of options) (next_fn w)]
         \<and> list_ex (same_listener (target_of (current w) (ref_of options)) (event_of options)
              (next_fn w)) (listeners w')"
    using mount_any[of k l options w] by blast
next
  assume "page_ok w0"
  then show "\<exists>s. keyboard_run acts (w0, None) = Inr s" by (rule run_total)
qed

theorem subscription_target_witness:
  "page_ok (fst page_with_node)
   \<and> observe_keyboard
       (keyboard_run
          [RenderWith ''Enter'' 7 (Some \<lparr>event = None, preventDefault = None, ref = Some 3\<rparr>),
           RenderWith ''Enter'' 7 (Some \<lparr>event = None, preventDefault = None, ref = Some 5\<rparr>),
           RenderWith ''Enter'' 7 None]
          (fst page_with_node, None)) =
       Inr ([(document, keydown, enter_handler)],
            [AddListener (HTMLElement 4) keydown 0, RemoveListener (HTMLElement 4) keydown 0,
             AddListener document keydown 0, RemoveListener document keydown 0,
             AddListener document keydown 0],
            [])"
  using subscription_target
    [where ?w0.0 = "fst page_with_node"
       and acts = "[RenderWith ''Enter'' 7
                      (Some \<lparr>event = None, preventDefault = None, ref = Some 3\<rparr>),
                    RenderWith ''Enter'' 7
                      (Some \<lparr>event = None, preventDefault = None, ref = Some 5\<rparr>),
                    RenderWith ''Enter'' 7 None]"]
  by (simp add: useKeyboard_def useKeyboard_effect_def target_of_def js_or_def
        truthy_def optional_current_def addEventListener_def removeEventListener_def
        useKeyboard_cleanup_def useKeyboard_unmount_def event_of_def preventDefault_of_def
        ref_of_def options_or_empty_def Let_def eventHandler_def listeners_on_def
        same_listener_def Event_preventDefault_def page_ok_def fresh_page_def
        observe_keyboard_def page_with_node_def enter_handler_def)

text \<open>
  C4. On a page whose other listeners are older functions, whatever the component does
  between mount and unmount (renders with any arguments, refs changing, events): while
  it is mounted there is exactly one listener of its own, the one its cleanup will
  remove, and that removal balances the log of calls; after it unmounted, the listeners
  are those the page had before, every \<^verbatim>\<open>addEventListener\<close> in the log is followed
  at once by the \<^verbatim>\<open>removeEventListener\<close> with the same target, type and function,
  and on a page without other listeners a dispatch calls nothing.
\<close>

theorem no_leaked_subscription:
  "page_ok w0 \<longrightarrow>
     (\<exists>w. keyboard_run (acts @ [UnmountHook]) (w0, None) = Inr (w, None)
          \<and> listeners w = listeners w0
          \<and> calls w = calls w0 @ new_calls w0 w \<and> balanced (new_calls w0 w)
          \<and> (listeners w0 = [] \<longrightarrow> (\<forall>path e. dispatchEvent path e w = (e, w))))
     \<and> (\<forall>w c. keyboard_run acts (w0, None) = Inr (w, Some c) \<longrightarrow>
           listeners w = listeners w0 @ [cleanup_cell c]
           \<and> calls w = calls w0 @ new_calls w0 w
           \<and> balanced (new_calls w0 w @
                [RemoveListener (fst (cleanup_cell c)) (fst (snd (cleanup_cell c)))
                   (fn (snd (snd (cleanup_cell c))))]))"
proof (intro impI conjI allI)
  assume ok: "page_ok w0"
  obtain w1 inst1 where r1: "keyboard_run acts (w0, None) = Inr (w1, inst1)"
    and i1: "hook_inv w0 w1 inst1"
    using run_inv[OF ok hook_inv_initial, of acts] by blast
  obtain w2 where u: "useKeyboard_unmount w1 inst1 = Inr w2" and i2: "hook_inv w0 w2 None"
    using unmount_inv[OF ok i1] by blast
  have run: "keyboard_run (acts @ [UnmountHook]) (w0, None) = Inr (w2, None)"
    using r1 u by (simp add: keyboard_run_append)
  note D = hook_inv_NoneD[OF i2]
  have "listeners w0 = [] \<longrightarrow> (\<forall>path e. dispatchEvent path e w2 = (e, w2))"
    using D(1) dispatchEvent_no_listeners by simp
  with run D show "\<exists>w. keyboard_run (acts @ [UnmountHook]) (w0, None) = Inr (w, None)
          \<and> listeners w = listeners w0
          \<and> calls w = calls w0 @ new_calls w0 w \<and> balanced (new_calls w0 w)
          \<and> (listeners w0 = [] \<longrightarrow> (\<forall>path e. dispatchEvent path e w = (e, w)))"
    by blast
next
  fix w c
  assume ok: "page_ok w0" and run: "keyboard_run acts (w0, None) = Inr (w, Some c)"
  have inv: "hook_inv w0 w (Some c)"
    using run_inv[OF ok hook_inv_initial, of acts] run by auto
  note D = hook_inv_SomeD[OF inv]
  show "listeners w = listeners w0 @ [cleanup_cell c]" by (rule D(7))
  show "calls w = calls w0 @ new_calls w0 w" by (rule D(9))
  have "fst (snd (cleanup_cell c)) = fst (effect_deps_cell c)"
       "snd (snd (cleanup_cell c)) = fst (callback_cell c)"
    using D(1) by (metis fst_conv snd_conv)+
  with D(8) show "balanced (new_calls w0 w @
                [RemoveListener (fst (cleanup_cell c)) (fst (snd (cleanup_cell c)))
                   (fn (snd (snd (cleanup_cell c))))])"
    by simp
qed

theorem no_leaked_subscription_witness:
  "page_ok (fst blank_page) \<and> listeners (fst blank_page) = []
   \<and> keyboard_run [RenderWith ''Enter'' 7 None, Dispatch [document] enter_down]
        (fst blank_page, None) =
       Inr (enter_page\<lparr>invoked := [(7, enter_down\<lparr>defaultPrevented := True, preventDefault_calls := 1\<rparr>)]\<rparr>,
            Some enter_cells)
   \<and> observe_keyboard
       (keyboard_run ([RenderWith ''Enter'' 7 None, Dispatch [document] enter_down] @
                      [UnmountHook])
          (fst blank_page, None)) =
       Inr ([], [AddListener document keydown 0, RemoveListener document keydown 0],
            [(7, enter_down\<lparr>defaultPrevented := True, preventDefault_calls := 1\<rparr>)])
   \<and> observe_keyboard
       (keyboard_run [RenderWith ''Enter'' 7 None, Dispatch [document] enter_down,
                      UnmountHook, Dispatch [document] enter_down]
          (fst blank_page, None)) =
       Inr ([], [AddListener document keydown 0, RemoveListener document keydown 0],
            [(7, enter_down\<lparr>defaultPrevented := True, preventDefault_calls := 1\<rparr>)])"
  using no_leaked_subscription
    [where ?w0.0 = "fst blank_page"
       and acts = "[RenderWith ''Enter'' 7 None, Dispatch [document] enter_down]"]
  by (simp add: useKeyboard_def useKeyboard_effect_def target_of_def js_or_def
        truthy_def optional_current_def addEventListener_def removeEventListener_def
        useKeyboard_cleanup_def useKeyboard_unmount_def event_of_def preventDefault_of_def
        ref_of_def options_or_empty_def Let_def eventHandler_def listeners_on_def
        same_listener_def Event_preventDefault_def page_ok_def fresh_page_def
        observe_keyboard_def blank_page_def enter_down_def enter_handler_def
        enter_page_def enter_cells_def)

text \<open>
  C9. The cleanup removes from the target that was resolved when the effect ran. After a
  mount, whatever the refs point to at unmount time, the removal names the target, type
  and function of the mount's \<^verbatim>\<open>addEventListener\<close>. The same holds in every mounted
  state of every run: the last call was the subscription of the listener that the
  cleanup closure captured, and with the refs changed at will the cleanup (at unmount
  or before a new effect) removes exactly that one.
\<close>

theorem cleanup_uses_captured_target:
  "(\<exists>w1 c. useKeyboard k l options w None = Inr (w1, c)
       \<and> calls w1 = calls w @ [AddListener (target_of (current w) (ref_of options))
                                  (event_of options) (next_fn w)]
       \<and> (\<forall>cur'. \<exists>w2. useKeyboard_unmount (w1\<lparr>current := cur'\<rparr>) (Some c) = Inr w2
              \<and> calls w2 = calls w1 @ [RemoveListener (target_of (current w) (ref_of options))
                                         (event_of options) (next_fn w)]))
   \<and> (page_ok w0 \<and> keyboard_run acts (w0, None) = Inr (w', Some c') \<longrightarrow>
        (\<exists>pre t ev h. cleanup_cell c' = (t, ev, h)
           \<and> calls w' = pre @ [AddListener t ev (fn h)]
           \<and> listeners w' = listeners w0 @ [(t, ev, h)]
           \<and> (\<forall>cur'. \<exists>w2. useKeyboard_cleanup (cleanup_cell c') (w'\<lparr>current := cur'\<rparr>) = Inr w2
                  \<and> useKeyboard_unmount (w'\<lparr>current := cur'\<rparr>) (Some c') = Inr w2
                  \<and> calls w2 = calls w' @ [RemoveListener t ev (fn h)]
                  \<and> listeners w2 = listeners w0)))"
proof (intro conjI impI)
  let ?t = "target_of (current w) (ref_of options)"
  let ?h = "\<lparr>fn = next_fn w, c_key = k, c_preventDefault = preventDefault_of options,
             c_listener = l\<rparr>"
  obtain w1 c where m: "useKeyboard k l options w None = Inr (w1, c)"
    "calls w1 = calls w @ [AddListener ?t (event_of options) (next_fn w)]"
    "cleanup_cell c = (?t, event_of options, ?h)"
    using mount_any[of k l options w] by blast
  have "\<forall>cur'. \<exists>w2. useKeyboard_unmount (w1\<lparr>current := cur'\<rparr>) (Some c) = Inr w2
              \<and> calls w2 = calls w1 @ [RemoveListener ?t (event_of options) (next_fn w)]"
    using m(3) by (simp add: useKeyboard_unmount_def cleanup_any truthy_target)
  with m(1,2) show "\<exists>w1 c. useKeyboard k l options w None = Inr (w1, c)
       \<and> calls w1 = calls w @ [AddListener (target_of (current w) (ref_of options))
                                  (event_of options) (next_fn w)]
       \<and> (\<forall>cur'. \<exists>w2. useKeyboard_unmount (w1\<lparr>current := cur'\<rparr>) (Some c) = Inr w2
              \<and> calls w2 = calls w1 @ [RemoveListener (target_of (current w) (ref_of options))
                                         (event_of options) (next_fn w)])"
    by blast
next
  assume a: "page_ok w0 \<and> keyboard_run acts (w0, None) = Inr (w', Some c')"
  then have ok: "page_ok w0" and run: "keyboard_run acts (w0, None) = Inr (w', Some c')"
    by simp_all
  have inv: "hook_inv w0 w' (Some c')"
    using run_inv[OF ok hook_inv_initial, of acts] run by auto
  note D = hook_inv_SomeD[OF inv]
  let ?t = "fst (cleanup_cell c')" and ?ev = "fst (effect_deps_cell c')"
  let ?h = "fst (callback_cell c')"
  obtain pre where pre: "new_calls w0 w' = pre @ [AddListener ?t ?ev (fn ?h)]"
    using balanced_snocD[OF D(8)] by blast
  have calls: "calls w' = (calls w0 @ pre) @ [AddListener ?t ?ev (fn ?h)]"
    using D(9) pre by simp
  have un: "\<forall>cur'. \<exists>w2. useKeyboard_cleanup (cleanup_cell c') (w'\<lparr>current := cur'\<rparr>) = Inr w2
                  \<and> useKeyboard_unmount (w'\<lparr>current := cur'\<rparr>) (Some c') = Inr w2
                  \<and> calls w2 = calls w' @ [RemoveListener ?t ?ev (fn ?h)]
                  \<and> listeners w2 = listeners w0"
  proof
    fix cur'
    have "useKeyboard_cleanup (?t, ?ev, ?h) (w'\<lparr>current := cur'\<rparr>) =
            Inr ((w'\<lparr>current := cur'\<rparr>)\<lparr>listeners := listeners w0,
                   calls := calls (w'\<lparr>current := cur'\<rparr>) @ [RemoveListener ?t ?ev (fn ?h)]\<rparr>)"
      by (rule cleanup_inv[OF ok D(5) _ D(3)]) (use D(1) D(7) in simp)
    then show "\<exists>w2. useKeyboard_cleanup (cleanup_cell c') (w'\<lparr>current := cur'\<rparr>) = Inr w2
                  \<and> useKeyboard_unmount (w'\<lparr>current := cur'\<rparr>) (Some c') = Inr w2
                  \<and> calls w2 = calls w' @ [RemoveListener ?t ?ev (fn ?h)]
                  \<and> listeners w2 = listeners w0"
      using D(1) by (simp add: useKeyboard_unmount_def)
  qed
  have "listeners w' = listeners w0 @ [(?t, ?ev, ?h)]"
    using D(1) D(7) by simp
  with D(1) calls un
  show "\<exists>pre t ev h. cleanup_cell c' = (t, ev, h)
           \<and> calls w' = pre @ [AddListener t ev (fn h)]
           \<and> listeners w' = listeners w0 @ [(t, ev, h)]
           \<and> (\<forall>cur'. \<exists>w2. useKeyboard_cleanup (cleanup_cell c') (w'\<lparr>current := cur'\<rparr>) = Inr w2
                  \<and> useKeyboard_unmount (w'\<lparr>current := cur'\<rparr>) (Some c') = Inr w2
                  \<and> calls w2 = calls w' @ [RemoveListener t ev (fn h)]
                  \<and> listeners w2 = listeners w0)"
    by blast
qed

theorem cleanup_uses_captured_target_witness:
  "page_ok (fst page_with_node)
   \<and> keyboard_run
       [RenderWith ''Enter'' 7 (Some \<lparr>event = Some keyup, preventDefault = None, ref = Some 3\<rparr>),
        Attach 3 (Some 9)]
       (fst page_with_node, None) =
       Inr ((fst page_with_node)
              \<lparr>current := (current (fst page_with_node))(3 := Some 9),
               listeners := [(HTMLElement 4, keyup, enter_handler)],
               next_fn := 1,
               calls := [AddListener (HTMLElement 4) keyup 0]\<rparr>,
            Some \<lparr>callback_cell = (enter_handler, ''Enter''),
                  effect_deps_cell = (keyup, 0, Some 3),
                  cleanup_cell = (HTMLElement 4, keyup, enter_handler)\<rparr>)
   \<and> observe_keyboard
       (keyboard_run
          [RenderWith ''Enter'' 7 (Some \<lparr>event = Some keyup, preventDefault = None, ref = Some 3\<rparr>),
           Attach 3 (Some 9), UnmountHook]
          (fst page_with_node, None)) =
       Inr ([], [AddListener (HTMLElement 4) keyup 0, RemoveListener (HTMLElement 4) keyup 0],
            [])"
  using cleanup_uses_captured_target
    [where ?w0.0 = "fst page_with_node"
       and acts = "[RenderWith ''Enter'' 7
                      (Some \<lparr>event = Some keyup, preventDefault = None, ref = Some 3\<rparr>),
                    Attach 3 (Some 9)]"
       and w' = "(fst page_with_node)
              \<lparr>current := (current (fst page_with_node))(3 := Some 9),
               listeners := [(HTMLElement 4, keyup, enter_handler)],
               next_fn := 1,
               calls := [AddListener (HTMLElement 4) keyup 0]\<rparr>"
       and c' = "\<lparr>callback_cell = (enter_handler, ''Enter''),
                  effect_deps_cell = (keyup, 0, Some 3),
                  cleanup_cell = (HTMLElement 4, keyup, enter_handler)\<rparr>"]
  by (simp add: useKeyboard_def useKeyboard_effect_def target_of_def js_or_def
        truthy_def optional_current_def addEventListener_def removeEventListener_def
        useKeyboard_cleanup_def useKeyboard_unmount_def event_of_def preventDefault_of_def
        ref_of_def options_or_empty_def Let_def eventHandler_def listeners_on_def
        same_listener_def Event_preventDefault_def page_ok_def fresh_page_def
        observe_keyboard_def page_with_node_def enter_handler_def)

text \<open>
  C3, as the spec states it, fails twice. A render that changes only the key, from Enter
  to Escape, removes the listener and adds a new function. And after a render that
  changes only the listener, from function 7 to function 8, an Enter press still calls
  function 7.
\<close>

theorem key_change_resubscribes_and_listener_is_stale:
  "observe_keyboard
     (keyboard_run [RenderWith ''Enter'' 7 None, RenderWith ''Escape'' 7 None] blank_page) =
     Inr ([(document, keydown,
            \<lparr>fn = 1, c_key = ''Escape'', c_preventDefault = True, c_listener = 7\<rparr>)],
          [AddListener document keydown 0, RemoveListener document keydown 0,
           AddListener document keydown 1],
          [])
   \<and> observe_keyboard
       (keyboard_run [RenderWith ''Enter'' 7 None, RenderWith ''Enter'' 8 None,
                      Dispatch [document] enter_down] blank_page) =
     Inr ([(document, keydown,
            \<lparr>fn = 0, c_key = ''Enter'', c_preventDefault = True, c_listener = 7\<rparr>)],
          [AddListener document keydown 0],
          [(7, enter_down\<lparr>defaultPrevented := True, preventDefault_calls := 1\<rparr>)])"
  by (simp add: useKeyboard_def useKeyboard_effect_def target_of_def js_or_def
        truthy_def optional_current_def addEventListener_def removeEventListener_def
        useKeyboard_cleanup_def useKeyboard_unmount_def event_of_def preventDefault_of_def
        ref_of_def options_or_empty_def Let_def eventHandler_def listeners_on_def
        same_listener_def Event_preventDefault_def page_ok_def fresh_page_def
        observe_keyboard_def blank_page_def enter_down_def)

text \<open>
  C3, amended. In every mounted state of every run, a render re-subscribes (one removal
  of the old listener, one subscription) exactly when the event type, the ref object or
  the key differs from the one of the last committed effect, and makes no call
  otherwise. The function changes identity exactly when the key changes. The function
  in use afterwards always has the latest key; when the key did not change it is the
  old function, with the listener and \<^verbatim>\<open>preventDefault\<close> it captured when the key
  last changed or at mount, and when the key changed it captures those of this render.
\<close>

theorem resubscription_rule:
  "page_ok w0 \<and> keyboard_run acts (w0, None) = Inr (w, Some c) \<longrightarrow>
     (\<exists>w' c'. useKeyboard k l options w (Some c) = Inr (w', c')
        \<and> calls w' = calls w @
             (if event_of options \<noteq> fst (effect_deps_cell c)
                 \<or> ref_of options \<noteq> snd (snd (effect_deps_cell c))
                 \<or> k \<noteq> snd (callback_cell c)
              then [RemoveListener (fst (cleanup_cell c)) (fst (effect_deps_cell c))
                      (fn (fst (callback_cell c))),
                    AddListener (target_of (current w) (ref_of options)) (event_of options)
                      (fn (fst (callback_cell c')))]
              else [])
        \<and> (fn (fst (callback_cell c')) = fn (fst (callback_cell c))) = (k = snd (callback_cell c))
        \<and> fst (callback_cell c') =
             (if k = snd (callback_cell c) then fst (callback_cell c)
              else \<lparr>fn = next_fn w, c_key = k, c_preventDefault = preventDefault_of options,
                    c_listener = l\<rparr>)
        \<and> c_key (fst (callback_cell c')) = k
        \<and> listeners w' =
             listeners w0 @ [(fst (cleanup_cell c'), event_of options, fst (callback_cell c'))])"
proof
  assume a: "page_ok w0 \<and> keyboard_run acts (w0, None) = Inr (w, Some c)"
  then have ok: "page_ok w0" and run: "keyboard_run acts (w0, None) = Inr (w, Some c)"
    by simp_all
  have inv: "hook_inv w0 w (Some c)"
    using run_inv[OF ok hook_inv_initial, of acts] run by auto
  note D = hook_inv_SomeD[OF inv]
  show "\<exists>w' c'. useKeyboard k l options w (Some c) = Inr (w', c')
        \<and> calls w' = calls w @
             (if event_of options \<noteq> fst (effect_deps_cell c)
                 \<or> ref_of options \<noteq> snd (snd (effect_deps_cell c))
                 \<or> k \<noteq> snd (callback_cell c)
              then [RemoveListener (fst (cleanup_cell c)) (fst (effect_deps_cell c))
                      (fn (fst (callback_cell c))),
                    AddListener (target_of (current w) (ref_of options)) (event_of options)
                      (fn (fst (callback_cell c')))]
              else [])
        \<and> (fn (fst (callback_cell c')) = fn (fst (callback_cell c))) = (k = snd (callback_cell c))
        \<and> fst (callback_cell c') =
             (if k = snd (callback_cell c) then fst (callback_cell c)
              else \<lparr>fn = next_fn w, c_key = k, c_preventDefault = preventDefault_of options,
                    c_listener = l\<rparr>)
        \<and> c_key (fst (callback_cell c')) = k
        \<and> listeners w' =
             listeners w0 @ [(fst (cleanup_cell c'), event_of options, fst (callback_cell c'))]"
  proof (cases "snd (callback_cell c) = k \<and> fst (effect_deps_cell c) = event_of options
                 \<and> snd (snd (effect_deps_cell c)) = ref_of options")
    case True
    have "useKeyboard k l options w (Some c) = Inr (w\<lparr>next_fn := Suc (next_fn w)\<rparr>, c)"
      using update_same[OF inv, of k options l] True by simp
    moreover have "listeners w = listeners w0 @ [(fst (cleanup_cell c), event_of options, fst (callback_cell c))]"
      using D(1) D(7) True by simp
    ultimately show ?thesis
      using True D(4) by auto
  next
    case False
    let ?h = "if snd (callback_cell c) = k then fst (callback_cell c)
              else \<lparr>fn = next_fn w, c_key = k, c_preventDefault = preventDefault_of options,
                    c_listener = l\<rparr>"
    let ?t = "target_of (current w) (ref_of options)"
    have eq: "useKeyboard k l options w (Some c) =
           Inr (w\<lparr>next_fn := Suc (next_fn w),
                  listeners := listeners w0 @ [(?t, event_of options, ?h)],
                  calls := calls w @
                    [RemoveListener (fst (cleanup_cell c)) (fst (effect_deps_cell c))
                       (fn (fst (callback_cell c))),
                     AddListener ?t (event_of options) (fn ?h)]\<rparr>,
                \<lparr>callback_cell = (?h, k),
                 effect_deps_cell = (event_of options, fn ?h, ref_of options),
                 cleanup_cell = (?t, event_of options, ?h)\<rparr>)"
      by (rule update_resubscribe[OF ok inv]) (use False in auto)
    have "(fn ?h = fn (fst (callback_cell c))) = (k = snd (callback_cell c))"
      using D(6) by auto
    moreover have "c_key ?h = k" using D(4) by simp
    ultimately show ?thesis
      using eq False by auto
  qed
qed

theorem resubscription_rule_witness:
  "page_ok (fst blank_page)
   \<and> keyboard_run [RenderWith ''Enter'' 7 None] (fst blank_page, None) =
       Inr (enter_page, Some enter_cells)
   \<and> useKeyboard ''Enter'' 8
        (Some \<lparr>event = None, preventDefault = Some False, ref = None\<rparr>) enter_page
        (Some enter_cells) =
       Inr (enter_page\<lparr>next_fn := 2\<rparr>, enter_cells)
   \<and> useKeyboard ''Escape'' 8
        (Some \<lparr>event = None, preventDefault = Some False, ref = None\<rparr>) enter_page
        (Some enter_cells) =
       Inr (enter_page
              \<lparr>listeners := [(document, keydown,
                  \<lparr>fn = 1, c_key = ''Escape'', c_preventDefault = False, c_listener = 8\<rparr>)],
               next_fn := 2,
               calls := [AddListener document keydown 0, RemoveListener document keydown 0,
                         AddListener document keydown 1]\<rparr>,
            \<lparr>callback_cell =
               (\<lparr>fn = 1, c_key = ''Escape'', c_preventDefault = False, c_listener = 8\<rparr>,
                ''Escape''),
             effect_deps_cell = (keydown, 1, None),
             cleanup_cell = (document, keydown,
               \<lparr>fn = 1, c_key = ''Escape'', c_preventDefault = False, c_listener = 8\<rparr>)\<rparr>)"
  using resubscription_rule
    [where ?w0.0 = "fst blank_page" and acts = "[RenderWith ''Enter'' 7 None]"
       and w = enter_page and c = enter_cells and k = "''Enter''" and l = 8
       and options = "Some \<lparr>event = None, preventDefault = Some False, ref = None\<rparr>"]
    resubscription_rule
    [where ?w0.0 = "fst blank_page" and acts = "[RenderWith ''Enter'' 7 None]"
       and w = enter_page and c = enter_cells and k = "''Escape''" and l = 8
       and options = "Some \<lparr>event = None, preventDefault = Some False, ref = None\<rparr>"]
  by (simp add: useKeyboard_def useKeyboard_effect_def target_of_def js_or_def
        truthy_def optional_current_def addEventListener_def removeEventListener_def
        useKeyboard_cleanup_def useKeyboard_unmount_def event_of_def preventDefault_of_def
        ref_of_def options_or_empty_def Let_def eventHandler_def listeners_on_def
        same_listener_def Event_preventDefault_def page_ok_def fresh_page_def
        blank_page_def enter_handler_def enter_page_def enter_cells_def)

end
